theory Spec2Isabelle
  imports Main
begin

section \<open>Python values used by the release script\<close>

text \<open>
  Strings are lists of characters; a character stands for a code point below 256.
  Exceptions are values of \<open>py_error\<close>; a function that may raise returns
  \<open>py_error + 'a\<close> with \<open>Inl\<close> for the exception.
  Python integers are unbounded and modelled by \<open>int\<close>; the interpreter's
  configurable cap on the number of digits accepted by \<open>int()\<close> and \<open>str()\<close>
  is a resource limit outside this model.
\<close>

datatype py_error =
    ValueError
  | EOFError
  | FileNotFoundError
  | IsADirectoryError
  | PermissionError
  | CalledProcessError
  | TemplateError

subsection \<open>Characters\<close>

definition is_digit :: "char \<Rightarrow> bool" where
  "is_digit c = (48 \<le> (of_char c :: nat) \<and> (of_char c :: nat) \<le> 57)"

definition digit_val :: "char \<Rightarrow> nat" where
  "digit_val c = (of_char c :: nat) - 48"

definition digit_char :: "nat \<Rightarrow> char" where
  "digit_char d = char_of (48 + d)"

text \<open>The characters that \<open>int()\<close> skips around a number: tab, line feed, vertical tab,
  form feed, carriage return, space, and the two whitespace code points of Latin-1.\<close>

definition is_space :: "char \<Rightarrow> bool" where
  "is_space c = (let n = (of_char c :: nat) in (9 \<le> n \<and> n \<le> 13) \<or> n = 32 \<or> n = 133 \<or> n = 160)"

subsection \<open>\<open>str.split('.')\<close> and \<open>'.'.join\<close>\<close>

fun split_dot :: "string \<Rightarrow> string list" where
  "split_dot [] = [[]]"
| "split_dot (c # cs) =
     (if c = CHR ''.'' then [] # split_dot cs
      else (case split_dot cs of
              [] \<Rightarrow> [[c]]
            | p # ps \<Rightarrow> (c # p) # ps))"

fun join_dot :: "string list \<Rightarrow> string" where
  "join_dot [] = []"
| "join_dot [p] = p"
| "join_dot (p # q # ps) = p @ CHR ''.'' # join_dot (q # ps)"

subsection \<open>\<open>int(s)\<close> and \<open>str(n)\<close>\<close>

definition strip_space :: "string \<Rightarrow> string" where
  "strip_space s = rev (dropWhile is_space (rev (dropWhile is_space s)))"

text \<open>The body of a base-10 literal: digits, with single underscores allowed between
  two digits.\<close>

fun digits_ok :: "string \<Rightarrow> bool" where
  "digits_ok [] = False"
| "digits_ok [c] = is_digit c"
| "digits_ok (c # d # r) =
     (is_digit c \<and> (if d = CHR ''_'' then digits_ok r else digits_ok (d # r)))"

definition decimal_value :: "string \<Rightarrow> nat" where
  "decimal_value s = foldl (\<lambda>a c. 10 * a + digit_val c) 0 s"

definition py_int :: "string \<Rightarrow> py_error + int" where
  "py_int s =
     (let t = strip_space s;
          neg = (t \<noteq> [] \<and> hd t = CHR ''-'');
          body = (if t \<noteq> [] \<and> (hd t = CHR ''-'' \<or> hd t = CHR ''+'') then tl t else t)
      in if digits_ok body
         then Inr ((if neg then - 1 else 1) * int (decimal_value (filter is_digit body)))
         else Inl ValueError)"

fun str_nat :: "nat \<Rightarrow> string" where
  "str_nat n = (if n < 10 then [digit_char n] else str_nat (n div 10) @ [digit_char (n mod 10)])"

declare str_nat.simps [simp del]

definition py_str :: "int \<Rightarrow> string" where
  "py_str i = (if i < 0 then CHR ''-'' # str_nat (nat (- i)) else str_nat (nat i))"

section \<open>Version increment\<close>

text \<open>\<open>increment_version\<close> (publish_to_pypi.py, lines 40-51). The argument is
  \<open>None\<close> or a string; \<open>not version\<close> holds for \<open>None\<close> and for the empty string.\<close>

definition increment_version :: "string option \<Rightarrow> py_error + string" where
  "increment_version version =
     (case version of
        None \<Rightarrow> Inr ''0.1.0''
      | Some v \<Rightarrow>
          if v = [] then Inr ''0.1.0''
          else
            let parts = split_dot v in
            if 3 \<le> length parts
            then (case py_int (last parts) of
                    Inl e \<Rightarrow> Inl e
                  | Inr n \<Rightarrow> Inr (join_dot (butlast parts @ [py_str (n + 1)])))
            else Inr (join_dot (parts @ [''1''])))"

text \<open>A component that is a decimal non-negative integer: one or more ASCII digits.\<close>

definition is_decimal :: "string \<Rightarrow> bool" where
  "is_decimal s = (s \<noteq> [] \<and> list_all is_digit s)"


section \<open>Regular expressions of the script\<close>

text \<open>
  The script uses three patterns. Each is a literal followed by a greedy, non-empty run
  of one character class, and two of them end with a closing double quote. A greedy
  run followed by a character outside the class can only match the longest run, so a
  match at a position is decided by \<open>takeWhile\<close>; \<open>re.search\<close> takes the leftmost
  position that matches.
\<close>

definition dquote :: char where
  "dquote = CHR 0x22"

definition backslash :: char where
  "backslash = CHR 0x5C"

fun strip_prefix :: "string \<Rightarrow> string \<Rightarrow> string option" where
  "strip_prefix [] s = Some s"
| "strip_prefix (p # ps) [] = None"
| "strip_prefix (p # ps) (c # cs) = (if p = c then strip_prefix ps cs else None)"

text \<open>A match of \<open>key"([^"]+)"\<close> at the start of \<open>s\<close>: the group and the text after
  the match. The keys are \<open>version=\<close> (setup.py) and \<open>version = \<close> (pyproject.toml).\<close>

definition match_quoted :: "string \<Rightarrow> string \<Rightarrow> (string \<times> string) option" where
  "match_quoted key s =
     (case strip_prefix (key @ [dquote]) s of
        None \<Rightarrow> None
      | Some r \<Rightarrow>
          let g = takeWhile (\<lambda>c. c \<noteq> dquote) r;
              t = dropWhile (\<lambda>c. c \<noteq> dquote) r
          in if g \<noteq> [] \<and> t \<noteq> [] then Some (g, tl t) else None)"

text \<open>\<open>re.search(r'key"([^"]+)"', s)\<close>, giving \<open>group(1)\<close> of the leftmost match.\<close>

fun search_quoted :: "string \<Rightarrow> string \<Rightarrow> string option" where
  "search_quoted key [] = map_option fst (match_quoted key [])"
| "search_quoted key (c # cs) =
     (case match_quoted key (c # cs) of
        Some (g, rest) \<Rightarrow> Some g
      | None \<Rightarrow> search_quoted key cs)"

text \<open>\<open>re.search(r'Version: ([\d\.]+)', s)\<close>, giving \<open>group(1)\<close>.\<close>

definition match_pkg_version :: "string \<Rightarrow> string option" where
  "match_pkg_version s =
     (case strip_prefix ''Version: '' s of
        None \<Rightarrow> None
      | Some r \<Rightarrow>
          let g = takeWhile (\<lambda>c. is_digit c \<or> c = CHR ''.'') r
          in if g \<noteq> [] then Some g else None)"

fun search_pkg_version :: "string \<Rightarrow> string option" where
  "search_pkg_version [] = match_pkg_version []"
| "search_pkg_version (c # cs) =
     (case match_pkg_version (c # cs) of
        Some g \<Rightarrow> Some g
      | None \<Rightarrow> search_pkg_version cs)"

subsection \<open>Replacement templates\<close>

text \<open>
  The second argument of \<open>re.sub\<close> is a template: a backslash starts an escape. The
  template is read as tokens (a character, or a backslash with the character after it;
  a backslash at the very end is an error) and then parsed. The patterns of the script
  have no capture group, so the only group a template can name is group 0, the whole
  match, written \<open>\g<0>\<close>; a group name made of anything but ASCII digits is rejected.
  \<open>re.error\<close> and the \<open>IndexError\<close> for an unknown group name are both
  \<open>TemplateError\<close> here.
\<close>

datatype token = Ch char | Esc char

fun tokenize :: "string \<Rightarrow> py_error + token list" where
  "tokenize [] = Inr []"
| "tokenize (c # cs) =
     (if c = backslash
      then (case cs of
              [] \<Rightarrow> Inl TemplateError
            | d # ds \<Rightarrow> (case tokenize ds of Inl e \<Rightarrow> Inl e | Inr ts \<Rightarrow> Inr (Esc d # ts)))
      else (case tokenize cs of Inl e \<Rightarrow> Inl e | Inr ts \<Rightarrow> Inr (Ch c # ts)))"

datatype titem = Lit char | WholeMatch

definition is_octal :: "char \<Rightarrow> bool" where
  "is_octal c = (48 \<le> (of_char c :: nat) \<and> (of_char c :: nat) \<le> 55)"

definition is_ascii_letter :: "char \<Rightarrow> bool" where
  "is_ascii_letter c =
     (let n = (of_char c :: nat) in (65 \<le> n \<and> n \<le> 90) \<or> (97 \<le> n \<and> n \<le> 122))"

text \<open>The escapes that stand for one character: \<open>\a \b \f \n \r \t \v \\\<close>.\<close>

definition simple_escape :: "char \<Rightarrow> char option" where
  "simple_escape c =
     (if c = CHR ''a'' then Some (CHR 0x07)
      else if c = CHR ''b'' then Some (CHR 0x08)
      else if c = CHR ''f'' then Some (CHR 0x0C)
      else if c = CHR ''n'' then Some (CHR 0x0A)
      else if c = CHR ''r'' then Some (CHR 0x0D)
      else if c = CHR ''t'' then Some (CHR 0x09)
      else if c = CHR ''v'' then Some (CHR 0x0B)
      else if c = backslash then Some backslash
      else None)"

definition is_ch_octal :: "token \<Rightarrow> bool" where
  "is_ch_octal t = (case t of Ch c \<Rightarrow> is_octal c | Esc c \<Rightarrow> False)"

definition tok_val :: "token \<Rightarrow> nat" where
  "tok_val t = (case t of Ch c \<Rightarrow> digit_val c | Esc c \<Rightarrow> 0)"

text \<open>One escape: the items it stands for and the tokens left, or an error.\<close>

definition parse_escape :: "char \<Rightarrow> token list \<Rightarrow> py_error + (titem list \<times> token list)" where
  "parse_escape c ts =
     (if c = CHR ''g'' then
        (case ts of
           Ch lt # ts1 \<Rightarrow>
             if lt = CHR ''<'' then
               (let name = takeWhile (\<lambda>t. t \<noteq> Ch (CHR ''>'')) ts1;
                    ts2 = dropWhile (\<lambda>t. t \<noteq> Ch (CHR ''>'')) ts1
                in if ts2 \<noteq> [] \<and> name \<noteq> [] \<and> list_all (\<lambda>t. t = Ch (CHR ''0'')) name
                   then Inr ([WholeMatch], tl ts2)
                   else Inl TemplateError)
             else Inl TemplateError
         | _ \<Rightarrow> Inl TemplateError)
      else if c = CHR ''0'' then
        (case ts of
           t1 # ts1 \<Rightarrow>
             if is_ch_octal t1 then
               (case ts1 of
                  t2 # ts2 \<Rightarrow>
                    if is_ch_octal t2
                    then Inr ([Lit (char_of ((8 * tok_val t1 + tok_val t2) mod 256))], ts2)
                    else Inr ([Lit (char_of (tok_val t1))], ts1)
                | [] \<Rightarrow> Inr ([Lit (char_of (tok_val t1))], ts1))
             else Inr ([Lit (CHR 0x00)], ts)
         | [] \<Rightarrow> Inr ([Lit (CHR 0x00)], ts))
      else if is_digit c then
        (case ts of
           t1 # t2 # ts2 \<Rightarrow>
             if is_octal c \<and> is_ch_octal t1 \<and> is_ch_octal t2
             then (let v = 64 * digit_val c + 8 * tok_val t1 + tok_val t2
                   in if v > 255 then Inl TemplateError else Inr ([Lit (char_of v)], ts2))
             else Inl TemplateError
         | _ \<Rightarrow> Inl TemplateError)
      else
        (case simple_escape c of
           Some e \<Rightarrow> Inr ([Lit e], ts)
         | None \<Rightarrow>
             if is_ascii_letter c then Inl TemplateError
             else Inr ([Lit backslash, Lit c], ts)))"

function parse_template :: "token list \<Rightarrow> py_error + titem list" where
  "parse_template [] = Inr []"
| "parse_template (Ch c # ts) =
     (case parse_template ts of Inl e \<Rightarrow> Inl e | Inr items \<Rightarrow> Inr (Lit c # items))"
| "parse_template (Esc c # ts) =
     (case parse_escape c ts of
        Inl e \<Rightarrow> Inl e
      | Inr (items, ts') \<Rightarrow>
          (case parse_template ts' of Inl e \<Rightarrow> Inl e | Inr more \<Rightarrow> Inr (items @ more)))"
  by pat_completeness auto
termination
proof (relation "measure length")
  fix c :: char and ts :: "token list" and x items ts'
  assume "parse_escape c ts = Inr x" and "(items, ts') = x"
  then have p: "parse_escape c ts = Inr (items, ts')" by simp
  have d: "length (dropWhile P xs) - Suc 0 \<le> length xs" for P and xs :: "token list"
    using length_dropWhile_le [of P xs] by simp
  have "length ts' \<le> length ts"
    using p
    by (auto simp: parse_escape_def Let_def le_Suc_eq d
             split: if_splits list.splits token.splits option.splits)
  then show "(ts', Esc c # ts) \<in> measure length" by simp
qed simp_all

definition compile_template :: "string \<Rightarrow> py_error + titem list" where
  "compile_template repl =
     (case tokenize repl of Inl e \<Rightarrow> Inl e | Inr ts \<Rightarrow> parse_template ts)"

primrec expand :: "titem list \<Rightarrow> string \<Rightarrow> string" where
  "expand [] m = []"
| "expand (i # items) m = (case i of Lit c \<Rightarrow> [c] | WholeMatch \<Rightarrow> m) @ expand items m"

text \<open>The scan of \<open>re.sub\<close>: matches are found left to right and do not overlap; the
  text between matches is kept.\<close>

function re_sub_scan :: "string \<Rightarrow> titem list \<Rightarrow> string \<Rightarrow> string" where
  "re_sub_scan key items s =
     (case match_quoted key s of
        Some (g, rest) \<Rightarrow> expand items (key @ dquote # g @ [dquote]) @ re_sub_scan key items rest
      | None \<Rightarrow> (case s of [] \<Rightarrow> [] | c # cs \<Rightarrow> c # re_sub_scan key items cs))"
  by pat_completeness auto
termination
proof (relation "measure (\<lambda>(key, items, s). length s)")
  fix key :: string and items :: "titem list" and s x g rest
  assume "match_quoted key s = Some x" and "(g, rest) = x"
  then have m: "match_quoted key s = Some (g, rest)" by simp
  have sp: "strip_prefix p t = Some r \<Longrightarrow> length r \<le> length t" for p t r
    by (induction p t rule: strip_prefix.induct) (auto split: if_splits)
  from m obtain r where r: "strip_prefix (key @ [dquote]) s = Some r"
    and rest: "rest = tl (dropWhile (\<lambda>c. c \<noteq> dquote) r)"
    and ne: "dropWhile (\<lambda>c. c \<noteq> dquote) r \<noteq> []"
    by (auto simp: match_quoted_def Let_def split: option.splits if_splits)
  have "length rest < length (dropWhile (\<lambda>c. c \<noteq> dquote) r)"
    using ne rest by (cases "dropWhile (\<lambda>c. c \<noteq> dquote) r") auto
  also have "\<dots> \<le> length r" by (rule length_dropWhile_le)
  also have "\<dots> \<le> length s" using sp [OF r] .
  finally show "((key, items, rest), (key, items, s)) \<in> measure (\<lambda>(key, items, s). length s)"
    by simp
qed simp_all

declare re_sub_scan.simps [simp del]

text \<open>\<open>re.sub(r'key"[^"]+"', repl, s)\<close>. The template is compiled before the scan, so a
  bad template raises even when nothing matches.\<close>

definition re_sub :: "string \<Rightarrow> string \<Rightarrow> string \<Rightarrow> py_error + string" where
  "re_sub key repl s =
     (case compile_template repl of
        Inl e \<Rightarrow> Inl e
      | Inr items \<Rightarrow> Inr (re_sub_scan key items s))"


section \<open>The world the script runs in\<close>

text \<open>
  A path is its list of components. The two metadata files live in the script's own
  directory and are kept in \<open>files\<close>, by path. The build artefacts live in the
  process's working directory, \<open>cwd\<close>: its entries in the order \<open>os.listdir\<close>
  returns them. The two parts never overlap: the script reads and writes only
  \<open>setup.py\<close> and \<open>pyproject.toml\<close> through \<open>files\<close> and only \<open>build\<close>,
  \<open>dist\<close> and \<open>*.egg-info\<close> through \<open>cwd\<close>. Distinct paths name distinct files.
  A file's content is the text as it is stored, decoded; reading and writing go through
  text mode and translate line ends, see \<open>read_file\<close> and \<open>write_file\<close>.
  \<open>stdin\<close> holds the lines still to be read.
\<close>

type_synonym path = "string list"

datatype node = File string | Dir "(string \<times> node) list"

datatype proc_outcome = Exited int | NotStarted

text \<open>What the script prints, by source line: 35; 89 and 97; 92; 106; 118; 131; 143; 148;
  152; 157 and 186; 161; 167; 169; 171; 178; 190; 194.\<close>

datatype msg =
    VersionsDiffer string string
  | CleaningDir string
  | DeletingFile string
  | BuildFailedMsg
  | UploadFailedMsg
  | EggInfoMismatch string string string
  | MissingFiles
  | CurrentVersion "string option"
  | NewVersion string
  | Cancelled
  | CleaningHeader
  | UpdatedHeader string
  | UpdatedFile path
  | NothingUpdated
  | BuildHeader
  | UploadHeader
  | Success string bool

text \<open>The prompts of \<open>input\<close>, lines 155, 175 and 184.\<close>

datatype prompt = ConfirmPrompt "string option" string | TestPrompt | RetryPrompt

text \<open>What a run does that can be seen from outside: a line printed, a prompt shown
  with the line read (\<open>None\<close> at end of input), a call of \<open>subprocess.run\<close> with
  what became of the process.\<close>

datatype event =
    Print msg
  | Input prompt "string option"
  | Run "string list" proc_outcome

record world =
  files :: "path \<Rightarrow> string option"
  cwd :: "(string \<times> node) list"
  stdin :: "string list"
  events :: "event list"

text \<open>
  What the script does not decide: where it is installed, the interpreter's path, what
  an external program does to the disk and how it ends, whether the operating
  system lets an entry of the working directory be removed, and the line separator of
  the platform (\<open>os.linesep\<close>: a line feed on POSIX, carriage return and line feed
  on Windows).
\<close>

record env =
  current_dir :: path
  sys_executable :: string
  tool :: "string list \<Rightarrow> (path \<Rightarrow> string option) \<times> (string \<times> node) list
             \<Rightarrow> proc_outcome \<times> (path \<Rightarrow> string option) \<times> (string \<times> node) list"
  rm_ok :: "string \<Rightarrow> bool"
  linesep :: string

subsection \<open>Sequencing with exceptions\<close>

type_synonym 'a io = "world \<Rightarrow> (py_error + 'a) \<times> world"

definition return_io :: "'a \<Rightarrow> 'a io" where
  "return_io x w = (Inr x, w)"

definition bind_io :: "'a io \<Rightarrow> ('a \<Rightarrow> 'b io) \<Rightarrow> 'b io" where
  "bind_io m f w = (case m w of (Inl e, w') \<Rightarrow> (Inl e, w') | (Inr x, w') \<Rightarrow> f x w')"

definition lift_io :: "py_error + 'a \<Rightarrow> 'a io" where
  "lift_io r w = (r, w)"

text \<open>\<open>try: m except subprocess.CalledProcessError: h\<close>.\<close>

definition except_called_process_error :: "'a io \<Rightarrow> 'a io \<Rightarrow> 'a io" where
  "except_called_process_error m h w =
     (case m w of
        (Inl e, w') \<Rightarrow> if e = CalledProcessError then h w' else (Inl e, w')
      | (Inr x, w') \<Rightarrow> (Inr x, w'))"

definition print_io :: "msg \<Rightarrow> unit io" where
  "print_io m w = (Inr (), w\<lparr>events := events w @ [Print m]\<rparr>)"

definition input_io :: "prompt \<Rightarrow> string io" where
  "input_io p w =
     (case stdin w of
        [] \<Rightarrow> (Inl EOFError, w\<lparr>events := events w @ [Input p None]\<rparr>)
      | l # ls \<Rightarrow> (Inr l, w\<lparr>stdin := ls, events := events w @ [Input p (Some l)]\<rparr>))"

definition carriage_return :: char where
  "carriage_return = CHR 0x0D"

definition line_feed :: char where
  "line_feed = CHR 0x0A"

text \<open>Reading in text mode (\<open>open(p, 'r')\<close>, universal newlines): a carriage return
  followed by a line feed, and a carriage return alone, are both read as one line
  feed.\<close>

fun universal_newlines :: "string \<Rightarrow> string" where
  "universal_newlines [] = []"
| "universal_newlines [c] = (if c = carriage_return then [line_feed] else [c])"
| "universal_newlines (c # d # cs) =
     (if c = carriage_return
      then (if d = line_feed then line_feed # universal_newlines cs
            else line_feed # universal_newlines (d # cs))
      else c # universal_newlines (d # cs))"

text \<open>Writing in text mode (\<open>open(p, 'w')\<close>): every line feed is written as the
  platform's line separator; everything else, a carriage return too, is written as it
  is.\<close>

definition write_newlines :: "string \<Rightarrow> string \<Rightarrow> string" where
  "write_newlines sep s = concat (map (\<lambda>c. if c = line_feed then sep else [c]) s)"

text \<open>\<open>with open(p, 'r', encoding='utf-8') as f: f.read()\<close>.\<close>

definition read_file :: "path \<Rightarrow> string io" where
  "read_file p w =
     (case files w p of
        None \<Rightarrow> (Inl FileNotFoundError, w)
      | Some stored \<Rightarrow> (Inr (universal_newlines stored), w))"

text \<open>\<open>with open(p, 'w', encoding='utf-8') as f: f.write(c)\<close>.\<close>

definition write_file :: "env \<Rightarrow> path \<Rightarrow> string \<Rightarrow> unit io" where
  "write_file E p c w =
     (Inr (), w\<lparr>files := (files w)(p \<mapsto> write_newlines (linesep E) c)\<rparr>)"

text \<open>\<open>str.lower\<close> on code points below 256.\<close>

definition lower_char :: "char \<Rightarrow> char" where
  "lower_char c =
     (let n = (of_char c :: nat)
      in if (65 \<le> n \<and> n \<le> 90) \<or> (192 \<le> n \<and> n \<le> 222 \<and> n \<noteq> 215)
         then char_of (n + 32) else c)"

definition lower :: "string \<Rightarrow> string" where
  "lower s = map lower_char s"

text \<open>Truth value of \<open>None\<close> or a string.\<close>

definition truthy :: "string option \<Rightarrow> bool" where
  "truthy v = (case v of None \<Rightarrow> False | Some s \<Rightarrow> s \<noteq> [])"

section \<open>Reading and rewriting the version\<close>

text \<open>\<open>get_current_version\<close>, lines 14-38.\<close>

definition get_current_version :: "path \<Rightarrow> path \<Rightarrow> (string option) io" where
  "get_current_version setup_file pyproject_file =
     bind_io (read_file setup_file) (\<lambda>setup_content.
     let setup_version = search_quoted ''version='' setup_content in
     bind_io (read_file pyproject_file) (\<lambda>pyproject_content.
     let pyproject_version = search_quoted ''version = '' pyproject_content in
     if truthy setup_version \<and> truthy pyproject_version \<and> setup_version \<noteq> pyproject_version
     then (case (setup_version, pyproject_version) of
             (Some sv, Some pv) \<Rightarrow>
               bind_io (print_io (VersionsDiffer sv pv)) (\<lambda>_. return_io setup_version)
           | _ \<Rightarrow> return_io setup_version)
     else return_io (if truthy setup_version then setup_version else pyproject_version)))"

text \<open>The replacement string \<open>f'key"{new_version}"'\<close>.\<close>

definition version_decl :: "string \<Rightarrow> string \<Rightarrow> string" where
  "version_decl key new_version = key @ dquote # new_version @ [dquote]"

text \<open>One half of \<open>update_version_in_files\<close>: lines 58-65 for setup.py, 68-75 for
  pyproject.toml.\<close>

definition update_file :: "env \<Rightarrow> string \<Rightarrow> path \<Rightarrow> string \<Rightarrow> (path list) io" where
  "update_file E key file new_version =
     bind_io (read_file file) (\<lambda>content.
     bind_io (lift_io (re_sub key (version_decl key new_version) content)) (\<lambda>new_content.
     if new_content \<noteq> content
     then bind_io (write_file E file new_content) (\<lambda>_. return_io [file])
     else return_io []))"

text \<open>\<open>update_version_in_files\<close>, lines 53-77. The environment is there for the
  platform's line separator only.\<close>

definition update_version_in_files :: "env \<Rightarrow> path \<Rightarrow> path \<Rightarrow> string \<Rightarrow> (path list) io" where
  "update_version_in_files E setup_file pyproject_file new_version =
     bind_io (update_file E ''version='' setup_file new_version) (\<lambda>updated_setup.
     bind_io (update_file E ''version = '' pyproject_file new_version) (\<lambda>updated_pyproject.
     return_io (updated_setup @ updated_pyproject)))"


section \<open>Build directories\<close>

definition ends_with :: "string \<Rightarrow> string \<Rightarrow> bool" where
  "ends_with suffix s =
     (length suffix \<le> length s \<and> drop (length s - length suffix) s = suffix)"

text \<open>\<open>glob.glob('*.egg-info')\<close>: the entries whose name ends in \<open>.egg-info\<close>, hidden
  entries (a leading dot) left out. Names are compared as on a POSIX system.\<close>

definition glob_egg_info :: "(string \<times> node) list \<Rightarrow> string list" where
  "glob_egg_info d =
     filter (\<lambda>n. ends_with ''.egg-info'' n \<and> take 1 n \<noteq> ''.'') (map fst d)"

definition isdir :: "(string \<times> node) list \<Rightarrow> string \<Rightarrow> bool" where
  "isdir d n = (case map_of d n of Some (Dir entries) \<Rightarrow> True | _ \<Rightarrow> False)"

definition exists_entry :: "(string \<times> node) list \<Rightarrow> string \<Rightarrow> bool" where
  "exists_entry d n = (map_of d n \<noteq> None)"

text \<open>\<open>shutil.rmtree\<close> and \<open>os.remove\<close>: the entry goes, unless the operating system
  refuses.\<close>

definition remove_entry :: "env \<Rightarrow> string \<Rightarrow> unit io" where
  "remove_entry E n w =
     (if rm_ok E n then (Inr (), w\<lparr>cwd := filter (\<lambda>(m, x). m \<noteq> n) (cwd w)\<rparr>)
      else (Inl PermissionError, w))"

text \<open>The inner loop of \<open>clean_build_directories\<close>, lines 87-93.\<close>

fun clean_items :: "env \<Rightarrow> string list \<Rightarrow> unit io" where
  "clean_items E [] = return_io ()"
| "clean_items E (item # items) =
     bind_io (\<lambda>w.
       if isdir (cwd w) item
       then bind_io (print_io (CleaningDir item)) (\<lambda>_. remove_entry E item) w
       else if exists_entry (cwd w) item
       then bind_io (print_io (DeletingFile item)) (\<lambda>_. remove_entry E item) w
       else return_io () w)
     (\<lambda>_. clean_items E items)"

text \<open>The branch for a name without a wildcard, lines 96-98.\<close>

definition clean_dir :: "env \<Rightarrow> string \<Rightarrow> unit io" where
  "clean_dir E pattern w =
     (if isdir (cwd w) pattern
      then bind_io (print_io (CleaningDir pattern)) (\<lambda>_. remove_entry E pattern) w
      else return_io () w)"

text \<open>\<open>clean_build_directories\<close>, lines 79-98, for the list
  \<open>['build', 'dist', '*.egg-info']\<close>.\<close>

definition clean_build_directories :: "env \<Rightarrow> unit io" where
  "clean_build_directories E =
     bind_io (clean_dir E ''build'') (\<lambda>_.
     bind_io (clean_dir E ''dist'') (\<lambda>_.
     (\<lambda>w. clean_items E (glob_egg_info (cwd w)) w)))"

text \<open>What \<open>check_egg_info_version\<close> learns from one entry, lines 125-129: nothing when
  \<open>PKG-INFO\<close> does not exist under it, an error when it cannot be opened as a file,
  else the version found in it, if any.\<close>

definition pkg_info_version :: "(string \<times> node) list \<Rightarrow> string \<Rightarrow> py_error + string option" where
  "pkg_info_version d egg_dir =
     (case map_of d egg_dir of
        Some (Dir entries) \<Rightarrow>
          (case map_of entries ''PKG-INFO'' of
             None \<Rightarrow> Inr None
           | Some (Dir sub) \<Rightarrow> Inl IsADirectoryError
           | Some (File stored) \<Rightarrow> Inr (search_pkg_version (universal_newlines stored)))
      | _ \<Rightarrow> Inr None)"

text \<open>The loop of \<open>check_egg_info_version\<close>, lines 124-133.\<close>

fun check_egg_dirs :: "string \<Rightarrow> string list \<Rightarrow> bool io" where
  "check_egg_dirs new_version [] = return_io True"
| "check_egg_dirs new_version (egg_dir # egg_dirs) =
     bind_io (\<lambda>w. lift_io (pkg_info_version (cwd w) egg_dir) w) (\<lambda>version_match.
     case version_match of
       Some found \<Rightarrow>
         if found \<noteq> new_version
         then bind_io (print_io (EggInfoMismatch (egg_dir @ ''/PKG-INFO'') found new_version))
                (\<lambda>_. return_io False)
         else check_egg_dirs new_version egg_dirs
     | None \<Rightarrow> check_egg_dirs new_version egg_dirs)"

declare check_egg_dirs.simps [simp del]

definition egg_dirs_of :: "(string \<times> node) list \<Rightarrow> string list" where
  "egg_dirs_of d = filter (ends_with ''.egg-info'') (map fst d)"

text \<open>\<open>check_egg_info_version\<close>, lines 121-133.\<close>

definition check_egg_info_version :: "string \<Rightarrow> bool io" where
  "check_egg_info_version new_version w =
     check_egg_dirs new_version (egg_dirs_of (cwd w)) w"

section \<open>External tools\<close>

text \<open>\<open>subprocess.run(argv, check=True)\<close>: a program that cannot be started raises
  \<open>FileNotFoundError\<close>, one that ends with a non-zero status raises
  \<open>CalledProcessError\<close>.\<close>

definition subprocess_run :: "env \<Rightarrow> string list \<Rightarrow> unit io" where
  "subprocess_run E argv w =
     (case tool E argv (files w, cwd w) of
        (NotStarted, disk) \<Rightarrow>
          (Inl FileNotFoundError, w\<lparr>events := events w @ [Run argv NotStarted]\<rparr>)
      | (Exited status, fs, d) \<Rightarrow>
          (if status = 0 then Inr () else Inl CalledProcessError,
           w\<lparr>files := fs, cwd := d, events := events w @ [Run argv (Exited status)]\<rparr>))"

definition build_argv :: "env \<Rightarrow> string list" where
  "build_argv E = [sys_executable E, ''-m'', ''build'']"

definition upload_argv :: "bool \<Rightarrow> string list" where
  "upload_argv test =
     (if test
      then [''twine'', ''upload'', ''--repository-url'', ''https://test.pypi.org/legacy/'', ''dist/*'']
      else [''twine'', ''upload'', ''dist/*''])"

text \<open>\<open>build_package\<close>, lines 100-107.\<close>

definition build_package :: "env \<Rightarrow> bool io" where
  "build_package E =
     except_called_process_error
       (bind_io (subprocess_run E (build_argv E)) (\<lambda>_. return_io True))
       (bind_io (print_io BuildFailedMsg) (\<lambda>_. return_io False))"

text \<open>\<open>upload_to_pypi\<close>, lines 109-119.\<close>

definition upload_to_pypi :: "env \<Rightarrow> bool \<Rightarrow> bool io" where
  "upload_to_pypi E test =
     except_called_process_error
       (bind_io (subprocess_run E (upload_argv test)) (\<lambda>_. return_io True))
       (bind_io (print_io UploadFailedMsg) (\<lambda>_. return_io False))"


section \<open>The release workflow\<close>

fun print_all :: "msg list \<Rightarrow> unit io" where
  "print_all [] = return_io ()"
| "print_all (m # ms) = bind_io (print_io m) (\<lambda>_. print_all ms)"

text \<open>The end of \<open>main\<close>, lines 189-195: the upload.\<close>

definition main_upload :: "env \<Rightarrow> string \<Rightarrow> bool \<Rightarrow> int io" where
  "main_upload E new_version use_test_pypi =
     bind_io (print_io UploadHeader) (\<lambda>_.
     bind_io (upload_to_pypi E use_test_pypi) (\<lambda>uploaded.
     if \<not> uploaded then return_io 1
     else bind_io (print_io (Success new_version use_test_pypi)) (\<lambda>_. return_io 0)))"

text \<open>Lines 182-188 of \<open>main\<close>: the check of the generated metadata and the extra
  confirmation.\<close>

definition main_check :: "env \<Rightarrow> string \<Rightarrow> bool \<Rightarrow> int io" where
  "main_check E new_version use_test_pypi =
     bind_io (check_egg_info_version new_version) (\<lambda>consistent.
     if \<not> consistent
     then bind_io (input_io RetryPrompt) (\<lambda>retry.
            if lower retry \<noteq> ''y''
            then bind_io (print_io Cancelled) (\<lambda>_. return_io 1)
            else main_upload E new_version use_test_pypi)
     else main_upload E new_version use_test_pypi)"

text \<open>Lines 177-180 of \<open>main\<close>: the build.\<close>

definition main_build :: "env \<Rightarrow> string \<Rightarrow> bool \<Rightarrow> int io" where
  "main_build E new_version use_test_pypi =
     bind_io (print_io BuildHeader) (\<lambda>_.
     bind_io (build_package E) (\<lambda>built.
     if \<not> built then return_io 1
     else main_check E new_version use_test_pypi))"

text \<open>\<open>main\<close>, lines 135-195, written down to line 176 and continued by the three
  definitions above; its value is the exit code.\<close>

definition main :: "env \<Rightarrow> int io" where
  "main E =
     (let setup_file = current_dir E @ [''setup.py''];
          pyproject_file = current_dir E @ [''pyproject.toml'']
      in
      bind_io (\<lambda>w. return_io (files w setup_file \<noteq> None \<and> files w pyproject_file \<noteq> None) w)
        (\<lambda>both_exist.
      if \<not> both_exist then bind_io (print_io MissingFiles) (\<lambda>_. return_io 1)
      else
        bind_io (get_current_version setup_file pyproject_file) (\<lambda>current_version.
        bind_io (print_io (CurrentVersion current_version)) (\<lambda>_.
        bind_io (lift_io (increment_version current_version)) (\<lambda>new_version.
        bind_io (print_io (NewVersion new_version)) (\<lambda>_.
        bind_io (input_io (ConfirmPrompt current_version new_version)) (\<lambda>confirm.
        if lower confirm \<noteq> ''y'' then bind_io (print_io Cancelled) (\<lambda>_. return_io 0)
        else
          bind_io (print_io CleaningHeader) (\<lambda>_.
          bind_io (clean_build_directories E) (\<lambda>_.
          bind_io (update_version_in_files E setup_file pyproject_file new_version)
            (\<lambda>updated_files.
          if updated_files = [] then bind_io (print_io NothingUpdated) (\<lambda>_. return_io 1)
          else
            bind_io (print_io (UpdatedHeader new_version)) (\<lambda>_.
            bind_io (print_all (map UpdatedFile updated_files)) (\<lambda>_.
            bind_io (input_io TestPrompt) (\<lambda>answer.
            main_build E new_version (lower answer = ''y''))))))))))))))"

section \<open>The plugin entry point\<close>

text \<open>
  \<open>load\<close> of \<open>__init__.py\<close>, lines 25-33. \<open>gpt_load_plugin\<close> is \<open>None\<close> when both
  imports failed, else the function of the feature module, given here by what a call of
  it does: it returns, or it raises. \<open>AnException\<close> stands for any instance of
  \<open>Exception\<close>, given by what \<open>str(e)\<close> does with it: it yields a text, or the
  object's \<open>__str__\<close> raises in turn. The other three are the built-in exceptions
  that derive from \<open>BaseException\<close> only. A call that never returns is outside this
  model.
\<close>

datatype py_exception =
    SystemExit
  | KeyboardInterrupt
  | GeneratorExit
  | AnException formatted
and formatted =
    Text string
  | StrRaises py_exception

datatype call_outcome = Returned | Raised py_exception

text \<open>The output calls of the handler that ran to their end: \<open>print\<close> of the
  message of line 31 with the exception's text, and \<open>traceback.print_exc()\<close>.\<close>

datatype load_output = LoadErrorMsg string | Traceback

text \<open>What the handler's two output calls can do, which the plugin does not decide:
  \<open>print\<close> of the message with a given exception text raises (\<open>Some\<close>) or
  succeeds, and so does \<open>traceback.print_exc()\<close>.\<close>

record console =
  print_raises :: "string \<Rightarrow> py_exception option"
  print_exc_raises :: "py_exception option"


text \<open>The handler, lines 31-33: the message is formatted, which calls \<open>str(e)\<close>, and
  printed; then the traceback is printed. Nothing encloses these statements, so an
  exception raised by one of them leaves \<open>load\<close>.\<close>

definition handle_exception :: "console \<Rightarrow> formatted \<Rightarrow> load_output list \<times> (py_exception + unit)" where
  "handle_exception C f =
     (case f of
        StrRaises x \<Rightarrow> ([], Inl x)
      | Text text \<Rightarrow>
          (case print_raises C text of
             Some x \<Rightarrow> ([], Inl x)
           | None \<Rightarrow>
               (case print_exc_raises C of
                  Some x \<Rightarrow> ([LoadErrorMsg text], Inl x)
                | None \<Rightarrow> ([LoadErrorMsg text, Traceback], Inr ()))))"

text \<open>The output calls \<open>load\<close> completes, and how it ends: normally, or with the
  exception that leaves it.\<close>

definition load :: "console \<Rightarrow> call_outcome option \<Rightarrow> load_output list \<times> (py_exception + unit)" where
  "load C gpt_load_plugin =
     (case gpt_load_plugin of
        None \<Rightarrow> ([], Inr ())
      | Some Returned \<Rightarrow> ([], Inr ())
      | Some (Raised e) \<Rightarrow>
          (case e of
             AnException f \<Rightarrow> handle_exception C f
           | _ \<Rightarrow> ([], Inl e)))"


section \<open>Example worlds\<close>

text \<open>Concrete inputs at which the theorems below are instantiated: a project whose two
  files declare versions 1.2.3 and 1.2.4, a project whose setup.py declares version 0,
  a version string that contains a double quote, external tools whose outcomes are
  fixed in advance (the build leaves a \<open>demo.egg-info\<close> behind that declares
  version 1.2.3), an operating system that refuses every removal, and two working
  directories.\<close>

definition example_files :: "path \<Rightarrow> string option" where
  "example_files =
     [[''proj'', ''setup.py''] \<mapsto> ''version='' @ dquote # ''1.2.3'' @ [dquote],
      [''proj'', ''pyproject.toml''] \<mapsto> ''version = '' @ dquote # ''1.2.4'' @ [dquote]]"

definition example_world :: world where
  "example_world = \<lparr>files = example_files, cwd = [], stdin = [], events = []\<rparr>"


definition zero_world :: world where
  "zero_world =
     \<lparr>files = [[''proj'', ''setup.py''] \<mapsto> ''version='' @ dquote # ''0'' @ [dquote],
               [''proj'', ''pyproject.toml''] \<mapsto> ''name = demo''],
      cwd = [], stdin = [], events = []\<rparr>"

definition scripted_env :: "proc_outcome \<Rightarrow> proc_outcome \<Rightarrow> env" where
  "scripted_env build_result upload_result =
     \<lparr>current_dir = [''proj''],
      sys_executable = ''python3'',
      tool = (\<lambda>argv (fs, d).
                if take 1 argv = [''twine''] then (upload_result, fs, d)
                else (build_result, fs,
                      d @ [(''demo.egg-info'', Dir [(''PKG-INFO'', File ''Version: 1.2.3'')])])),
      rm_ok = (\<lambda>n. True),
      linesep = [line_feed]\<rparr>"

definition locked_env :: env where
  "locked_env = (scripted_env (Exited 0) (Exited 0))\<lparr>rm_ok := (\<lambda>n. False)\<rparr>"

definition source_tree :: "(string \<times> node) list" where
  "source_tree = [(''src'', Dir []), (''README.md'', File ''demo'')]"

definition built_tree :: "(string \<times> node) list" where
  "built_tree =
     [(''notes.txt'', File ''Version: 9''),
      (''old.egg-info'', Dir []),
      (''demo.egg-info'', Dir [(''PKG-INFO'', File ''Name: demo Version: 1.2.3'')]),
      (''broken.egg-info'', Dir [(''PKG-INFO'', Dir [])])]"


text \<open>A version string with a carriage return in it.\<close>

definition cr_version :: string where
  "cr_version = ''1'' @ carriage_return # ''2''"

text \<open>The example project with the lines the user will type.\<close>

definition answers :: "string list \<Rightarrow> world" where
  "answers ls = example_world\<lparr>stdin := ls\<rparr>"

section \<open>Predicates on the event log\<close>

text \<open>The events a run of \<open>main\<close> can log before it reaches the build: no call of
  an external program, no extra confirmation, no warning about the generated
  metadata.\<close>

definition plain_event :: "event \<Rightarrow> bool" where
  "plain_event e =
     (case e of
        Print m \<Rightarrow> (case m of EggInfoMismatch p found v \<Rightarrow> False | _ \<Rightarrow> True)
      | Input p a \<Rightarrow> p \<noteq> RetryPrompt
      | Run argv oc \<Rightarrow> False)"

text \<open>\<open>only P m\<close>: whatever the world, \<open>m\<close> appends to the log, and only events
  that satisfy \<open>P\<close>.\<close>

definition only :: "(event \<Rightarrow> bool) \<Rightarrow> 'a io \<Rightarrow> bool" where
  "only P m = (\<forall>w. \<exists>new. events (snd (m w)) = events w @ new \<and> list_all P new)"

text \<open>The events of the upload stage, and those of the check stage.\<close>

definition upload_event :: "string \<Rightarrow> bool \<Rightarrow> event \<Rightarrow> bool" where
  "upload_event nv t e =
     (e = Print UploadHeader \<or> e = Print UploadFailedMsg \<or> e = Print (Success nv t)
      \<or> (\<exists>oc. e = Run (upload_argv t) oc))"

definition check_event :: "string \<Rightarrow> bool \<Rightarrow> event \<Rightarrow> bool" where
  "check_event nv t e =
     (upload_event nv t e \<or> e = Print Cancelled \<or> (\<exists>a. e = Input RetryPrompt a)
      \<or> (\<exists>p found. e = Print (EggInfoMismatch p found nv)))"

text \<open>\<open>reaches_build E m\<close>: a run of \<open>m\<close> either logs plain events only, or logs
  plain events and then continues as the build stage.\<close>

definition reaches_build :: "env \<Rightarrow> int io \<Rightarrow> bool" where
  "reaches_build E m =
     (\<forall>w. (\<exists>new. events (snd (m w)) = events w @ new \<and> list_all plain_event new)
        \<or> (\<exists>nv t w2 new. events w2 = events w @ new \<and> list_all plain_event new
              \<and> m w = main_build E nv t w2))"

section \<open>Properties of the version increment\<close>

lemma split_dot_nonempty: "split_dot s \<noteq> []"
  by (induction s) (auto split: list.splits)

lemma join_split_dot: "join_dot (split_dot s) = s"
proof (induction s)
  case Nil show ?case by simp
next
  case (Cons c cs)
  obtain p ps where sp: "split_dot cs = p # ps"
    using split_dot_nonempty [of cs] by (cases "split_dot cs") auto
  show ?case
  proof (cases "c = CHR ''.''")
    case True
    with Cons sp show ?thesis by simp
  next
    case False
    with Cons sp show ?thesis by (cases ps) auto
  qed
qed

lemma split_dot_no_dot: "p \<in> set (split_dot s) \<Longrightarrow> CHR ''.'' \<notin> set p"
  by (induction s arbitrary: p) (auto split: list.splits if_splits)

lemma split_dot_plain: "CHR ''.'' \<notin> set p \<Longrightarrow> split_dot p = [p]"
  by (induction p) auto

lemma split_dot_append: "CHR ''.'' \<notin> set p \<Longrightarrow> split_dot (p @ CHR ''.'' # s) = p # split_dot s"
  by (induction p) auto

lemma split_join_dot:
  "ps \<noteq> [] \<Longrightarrow> \<forall>p \<in> set ps. CHR ''.'' \<notin> set p \<Longrightarrow> split_dot (join_dot ps) = ps"
  by (induction ps rule: join_dot.induct) (auto simp: split_dot_plain split_dot_append)

lemma join_dot_snoc: "ps \<noteq> [] \<Longrightarrow> join_dot (ps @ [x]) = join_dot ps @ CHR ''.'' # x"
  by (induction ps rule: join_dot.induct) auto

lemma digit_char_is_digit: "d < 10 \<Longrightarrow> is_digit (digit_char d)"
  by (simp add: is_digit_def digit_char_def)

lemma digit_val_char: "d < 10 \<Longrightarrow> digit_val (digit_char d) = d"
  by (simp add: digit_val_def digit_char_def)

lemma str_nat_digits: "list_all is_digit (str_nat n)"
  by (induction n rule: str_nat.induct) (subst str_nat.simps, simp add: digit_char_is_digit)

lemma str_nat_nonempty: "str_nat n \<noteq> []"
  by (subst str_nat.simps) simp

lemma decimal_value_snoc: "decimal_value (s @ [c]) = 10 * decimal_value s + digit_val c"
  by (simp add: decimal_value_def)

lemma decimal_value_str_nat: "decimal_value (str_nat n) = n"
proof (induction n rule: str_nat.induct)
  case (1 n)
  show ?case
  proof (cases "n < 10")
    case True
    then show ?thesis by (subst str_nat.simps) (simp add: decimal_value_def digit_val_char)
  next
    case False
    with 1 show ?thesis
      by (subst str_nat.simps) (simp add: decimal_value_snoc digit_val_char)
  qed
qed

lemma digit_not_space: "is_digit c \<Longrightarrow> \<not> is_space c"
  by (auto simp: is_digit_def is_space_def Let_def)

lemma digit_not_sign: "is_digit c \<Longrightarrow> c \<noteq> CHR ''-'' \<and> c \<noteq> CHR ''+'' \<and> c \<noteq> CHR ''_'' \<and> c \<noteq> CHR ''.''"
  by (auto simp: is_digit_def)

lemma digits_ok_all_digits: "s \<noteq> [] \<Longrightarrow> list_all is_digit s \<Longrightarrow> digits_ok s"
  by (induction s rule: digits_ok.induct) (auto dest: digit_not_sign)

lemma strip_space_decimal: "is_decimal s \<Longrightarrow> strip_space s = s"
proof -
  assume d: "is_decimal s"
  then obtain c r where s: "s = c # r" by (cases s) (auto simp: is_decimal_def)
  from d s have "\<not> is_space c" by (simp add: is_decimal_def digit_not_space)
  then have 1: "dropWhile is_space s = s" using s by simp
  from d have "rev s \<noteq> []" "\<not> is_space (hd (rev s))"
    by (auto simp: is_decimal_def hd_rev list_all_iff intro!: digit_not_space)
  then have "dropWhile is_space (rev s) = rev s" by (cases "rev s") auto
  with 1 show ?thesis by (simp add: strip_space_def)
qed

lemma py_int_decimal: "is_decimal s \<Longrightarrow> py_int s = Inr (int (decimal_value s))"
proof -
  assume d: "is_decimal s"
  then have ne: "s \<noteq> []" and c: "is_digit (hd s)"
    by (cases s; simp add: is_decimal_def)+
  have f: "filter is_digit s = s" using d by (simp add: is_decimal_def list_all_iff)
  have ok: "digits_ok s" using d by (simp add: is_decimal_def digits_ok_all_digits)
  have sg: "hd s \<noteq> CHR ''-''" "hd s \<noteq> CHR ''+''" using digit_not_sign [OF c] by simp_all
  show ?thesis
    by (simp add: py_int_def strip_space_decimal [OF d] Let_def ne sg f ok)
qed

lemma py_str_nat: "py_str (int n + 1) = str_nat (Suc n)"
  by (simp add: py_str_def nat_add_distrib)

text \<open>
  Claim C1. A version with three or more dot-separated components whose last
  component is a run of decimal digits is incremented to the same components with the
  last one replaced by the decimal numeral of its successor. Nothing is carried into
  an earlier component: the other components are the same strings as before.
\<close>

theorem increment_version_three_or_more:
  assumes "3 \<le> length (split_dot v)" and "is_decimal (last (split_dot v))"
  shows "\<exists>r. increment_version (Some v) = Inr r
           \<and> r = join_dot (butlast (split_dot v) @ [str_nat (Suc (decimal_value (last (split_dot v))))])
           \<and> split_dot r = butlast (split_dot v) @ [str_nat (Suc (decimal_value (last (split_dot v))))]
           \<and> is_decimal (last (split_dot r))
           \<and> decimal_value (last (split_dot r)) = decimal_value (last (split_dot v)) + 1"
proof -
  let ?parts = "split_dot v"
  let ?n = "decimal_value (last ?parts)"
  let ?new = "butlast ?parts @ [str_nat (Suc ?n)]"
  have v: "v \<noteq> []" using assms(1) by (cases v) auto
  have inc: "increment_version (Some v) = Inr (join_dot ?new)"
    using assms v by (simp add: increment_version_def Let_def py_int_decimal py_str_nat)
  have nodot_new: "CHR ''.'' \<notin> set (str_nat (Suc ?n))"
    using str_nat_digits [of "Suc ?n"] digit_not_sign by (auto simp: list_all_iff)
  have "\<forall>p \<in> set ?new. CHR ''.'' \<notin> set p"
    using nodot_new split_dot_no_dot [of _ v] by (auto dest: in_set_butlastD)
  then have sp: "split_dot (join_dot ?new) = ?new"
    by (intro split_join_dot) simp_all
  have "is_decimal (str_nat (Suc ?n))"
    by (simp add: is_decimal_def str_nat_nonempty str_nat_digits)
  with inc sp show ?thesis by (simp add: decimal_value_str_nat)
qed

theorem increment_version_three_or_more_witness:
  "3 \<le> length (split_dot ''1.2.9'') \<and> is_decimal (last (split_dot ''1.2.9''))
   \<and> increment_version (Some ''1.2.9'') = Inr ''1.2.10''"
proof -
  have a: "3 \<le> length (split_dot ''1.2.9'')" by simp
  have b: "is_decimal (last (split_dot ''1.2.9''))" by (simp add: is_decimal_def is_digit_def)
  have c: "str_nat (Suc (decimal_value ''9'')) = ''10''"
    by code_simp
  from increment_version_three_or_more [OF a b] a b c show ?thesis by simp
qed

lemma join_dot_append_one: "join_dot (split_dot v @ [x]) = v @ CHR ''.'' # x"
  by (simp add: join_dot_snoc split_dot_nonempty join_split_dot)

text \<open>
  Claim C2, as amended. An absent version and the empty version both give \<open>0.1.0\<close>.
  A non-empty version with fewer than three components gets a new last component
  \<open>1\<close>.
\<close>

theorem increment_version_short:
  "increment_version None = Inr ''0.1.0''
   \<and> increment_version (Some []) = Inr ''0.1.0''
   \<and> (v \<noteq> [] \<and> length (split_dot v) < 3 \<longrightarrow>
        increment_version (Some v) = Inr (v @ ''.1'')
        \<and> split_dot (v @ ''.1'') = split_dot v @ [''1''])"
proof -
  have "split_dot (join_dot (split_dot v @ [''1''])) = split_dot v @ [''1'']"
    using split_dot_no_dot [of _ v] by (intro split_join_dot) auto
  then show ?thesis
    by (auto simp: increment_version_def Let_def join_dot_append_one)
qed

theorem increment_version_short_witness:
  "increment_version (Some ''1.2'') = Inr ''1.2.1'' \<and> increment_version (Some ''1'') = Inr ''1.1''"
  using increment_version_short [of "''1.2''"] increment_version_short [of "''1''"] by simp

text \<open>
  Claim C2 as first stated fails for the empty string: it has one component, and the
  result is \<open>0.1.0\<close>, not the string with a component \<open>1\<close> appended.
\<close>

theorem increment_version_empty_counterexample:
  "length (split_dot '''') < 3
   \<and> increment_version (Some '''') = Inr ''0.1.0''
   \<and> increment_version (Some '''') \<noteq> Inr (join_dot (split_dot '''' @ [''1'']))"
  by (simp add: increment_version_def)


section \<open>Properties of the regular-expression model\<close>


lemma strip_prefix_iff: "strip_prefix p s = Some r \<longleftrightarrow> s = p @ r"
  by (induction p s rule: strip_prefix.induct) auto

lemma strip_prefix_None: "strip_prefix p s = None \<longleftrightarrow> (\<forall>r. s \<noteq> p @ r)"
  using strip_prefix_iff [of p s] by (cases "strip_prefix p s") auto

lemma takeWhile_quote_free:
  "dquote \<notin> set g \<Longrightarrow> takeWhile (\<lambda>c. c \<noteq> dquote) (g @ dquote # rest) = g"
  by (induction g) auto

lemma dropWhile_quote_free:
  "dquote \<notin> set g \<Longrightarrow> dropWhile (\<lambda>c. c \<noteq> dquote) (g @ dquote # rest) = dquote # rest"
  by (induction g) auto


lemma first_quote_split:
  "(r = g @ dquote # rest \<and> dquote \<notin> set g) \<longleftrightarrow>
   (takeWhile (\<lambda>c. c \<noteq> dquote) r = g \<and> dropWhile (\<lambda>c. c \<noteq> dquote) r = dquote # rest)"
proof
  assume "r = g @ dquote # rest \<and> dquote \<notin> set g"
  then show "takeWhile (\<lambda>c. c \<noteq> dquote) r = g \<and> dropWhile (\<lambda>c. c \<noteq> dquote) r = dquote # rest"
    by (simp add: takeWhile_quote_free dropWhile_quote_free)
next
  assume a: "takeWhile (\<lambda>c. c \<noteq> dquote) r = g \<and> dropWhile (\<lambda>c. c \<noteq> dquote) r = dquote # rest"
  have "r = takeWhile (\<lambda>c. c \<noteq> dquote) r @ dropWhile (\<lambda>c. c \<noteq> dquote) r" by simp
  with a have "r = g @ dquote # rest" by simp
  moreover have "dquote \<notin> set g" using a by (auto dest: set_takeWhileD)
  ultimately show "r = g @ dquote # rest \<and> dquote \<notin> set g" by simp
qed

lemma match_quoted_iff:
  "match_quoted key s = Some (g, rest) \<longleftrightarrow>
   s = key @ dquote # g @ dquote # rest \<and> g \<noteq> [] \<and> dquote \<notin> set g"
proof (cases "strip_prefix (key @ [dquote]) s")
  case None
  then have "s \<noteq> (key @ [dquote]) @ r" for r
    using strip_prefix_iff [of "key @ [dquote]" s r] by simp
  from this [of "g @ dquote # rest"] have "s \<noteq> key @ dquote # g @ dquote # rest" by simp
  with None show ?thesis
    by (simp add: match_quoted_def)
next
  case (Some r)
  then have s: "s = key @ dquote # r" by (simp add: strip_prefix_iff)
  define D where "D = dropWhile (\<lambda>c. c \<noteq> dquote) r"
  have "D \<noteq> [] \<and> rest = tl D \<longleftrightarrow> D = dquote # rest"
  proof (cases D)
    case Nil
    then show ?thesis by simp
  next
    case (Cons x xs)
    then have "\<not> (hd D \<noteq> dquote)"
      using hd_dropWhile [of "\<lambda>c. c \<noteq> dquote" r] by (simp add: D_def)
    with Cons show ?thesis by auto
  qed
  then have "dropWhile (\<lambda>c. c \<noteq> dquote) r \<noteq> [] \<and> rest = tl (dropWhile (\<lambda>c. c \<noteq> dquote) r)
        \<longleftrightarrow> dropWhile (\<lambda>c. c \<noteq> dquote) r = dquote # rest"
    by (simp add: D_def)
  then show ?thesis
    using Some s first_quote_split [of r g rest]
    by (auto simp: match_quoted_def Let_def)
qed

lemma match_quoted_None_iff:
  "match_quoted key s = None \<longleftrightarrow>
   (\<forall>g rest. \<not> (s = key @ dquote # g @ dquote # rest \<and> g \<noteq> [] \<and> dquote \<notin> set g))"
  using match_quoted_iff [of key s] by (cases "match_quoted key s") auto



lemma search_quoted_nonempty: "search_quoted key s = Some g \<Longrightarrow> g \<noteq> []"
  by (induction s) (auto simp: match_quoted_iff split: option.splits)


















section \<open>Properties of reading and rewriting the version\<close>

subsection \<open>Line ends\<close>

lemma universal_newlines_Cons:
  "c \<noteq> carriage_return \<Longrightarrow> universal_newlines (c # cs) = c # universal_newlines cs"
  by (cases cs) simp_all


lemma universal_newlines_id: "carriage_return \<notin> set s \<Longrightarrow> universal_newlines s = s"
  by (induction s) (auto simp: universal_newlines_Cons)





subsection \<open>Reading the version\<close>

lemma search_quoted_truthy: "truthy (search_quoted key s) \<longleftrightarrow> search_quoted key s \<noteq> None"
  using search_quoted_nonempty [of key s] by (cases "search_quoted key s") (auto simp: truthy_def)

text \<open>
  Claim C3. With both files readable, \<open>get_current_version\<close> returns: the setup.py
  value and a printed warning when both patterns match and the values differ; the
  common value when they agree; the value of the one pattern that matches when only one
  does; \<open>None\<close> when neither does. Nothing else is printed or changed. The patterns
  are searched in the text as \<open>read\<close> returns it.
\<close>

theorem get_current_version_cases:
  assumes "files w setup_file = Some setup_stored"
    and "files w pyproject_file = Some pyproject_stored"
  shows "get_current_version setup_file pyproject_file w =
     (case (search_quoted ''version='' (universal_newlines setup_stored),
            search_quoted ''version = '' (universal_newlines pyproject_stored)) of
        (Some sv, Some pv) \<Rightarrow>
          if sv \<noteq> pv
          then (Inr (Some sv), w\<lparr>events := events w @ [Print (VersionsDiffer sv pv)]\<rparr>)
          else (Inr (Some sv), w)
      | (Some sv, None) \<Rightarrow> (Inr (Some sv), w)
      | (None, Some pv) \<Rightarrow> (Inr (Some pv), w)
      | (None, None) \<Rightarrow> (Inr None, w))"
  using assms
  by (simp add: get_current_version_def bind_io_def read_file_def return_io_def print_io_def
        Let_def search_quoted_truthy split: option.splits)

lemma search_example_setup:
  "search_quoted ''version='' (universal_newlines (''version='' @ dquote # ''1.2.3'' @ [dquote]))
     = Some ''1.2.3''"
  by code_simp

lemma search_example_pyproject:
  "search_quoted ''version = '' (universal_newlines (''version = '' @ dquote # ''1.2.4'' @ [dquote]))
     = Some ''1.2.4''"
  by code_simp

theorem get_current_version_cases_witness:
  "files example_world [''proj'', ''setup.py''] = Some (''version='' @ dquote # ''1.2.3'' @ [dquote])
   \<and> files example_world [''proj'', ''pyproject.toml''] = Some (''version = '' @ dquote # ''1.2.4'' @ [dquote])
   \<and> get_current_version [''proj'', ''setup.py''] [''proj'', ''pyproject.toml''] example_world =
       (Inr (Some ''1.2.3''),
        example_world\<lparr>events := [Print (VersionsDiffer ''1.2.3'' ''1.2.4'')]\<rparr>)"
proof -
  have a: "files example_world [''proj'', ''setup.py''] = Some (''version='' @ dquote # ''1.2.3'' @ [dquote])"
    by (simp add: example_world_def example_files_def)
  have b: "files example_world [''proj'', ''pyproject.toml''] = Some (''version = '' @ dquote # ''1.2.4'' @ [dquote])"
    by (simp add: example_world_def example_files_def)
  have e: "events example_world = []" by (simp add: example_world_def)
  from get_current_version_cases [OF a b] a b show ?thesis
    by (simp only: search_example_setup search_example_pyproject) (simp add: e)
qed

subsection \<open>Rewriting the version\<close>








text \<open>The carriage return has to be excluded as well: it is written as it is and read
  back as a line feed, so with \<open>1\<close>, carriage return, \<open>2\<close> as the new version the
  second call reads another text than the first one wrote, rewrites setup.py and
  reports it.\<close>

lemma update_version_in_files_carriage_return:
  "dquote \<notin> set cr_version \<and> backslash \<notin> set cr_version
   \<and> fst (update_version_in_files (scripted_env (Exited 0) (Exited 0))
          [''proj'', ''setup.py''] [''proj'', ''pyproject.toml''] cr_version zero_world)
       = Inr [[''proj'', ''setup.py'']]
   \<and> fst (update_version_in_files (scripted_env (Exited 0) (Exited 0))
          [''proj'', ''setup.py''] [''proj'', ''pyproject.toml''] cr_version
          (snd (update_version_in_files (scripted_env (Exited 0) (Exited 0))
                  [''proj'', ''setup.py''] [''proj'', ''pyproject.toml''] cr_version zero_world)))
       = Inr [[''proj'', ''setup.py'']]"
  by code_simp

section \<open>Properties of the plugin entry point\<close>




text \<open>The handler itself is not guarded. An instance of \<open>Exception\<close> whose
  \<open>__str__\<close> raises leaves \<open>load\<close> with the exception of \<open>__str__\<close>, and an
  output call that raises leaves \<open>load\<close> with its exception.\<close>

lemma load_unformattable:
  "load C (Some (Raised (AnException (StrRaises x)))) = ([], Inl x)"
  by (simp add: load_def handle_exception_def)

lemma load_output_fails:
  "print_raises C text = Some x \<Longrightarrow>
     load C (Some (Raised (AnException (Text text)))) = ([], Inl x)"
  "print_raises C text = None \<Longrightarrow> print_exc_raises C = Some y \<Longrightarrow>
     load C (Some (Raised (AnException (Text text)))) = ([LoadErrorMsg text], Inl y)"
  by (simp_all add: load_def handle_exception_def)

section \<open>Properties of the external tool calls\<close>

lemma subprocess_run_exited:
  "tool E argv (files w, cwd w) = (Exited status, fs, d) \<Longrightarrow>
   subprocess_run E argv w =
     (if status = 0 then Inr () else Inl CalledProcessError,
      w\<lparr>files := fs, cwd := d, events := events w @ [Run argv (Exited status)]\<rparr>)"
  by (simp add: subprocess_run_def)

lemma subprocess_run_not_started:
  "tool E argv (files w, cwd w) = (NotStarted, disk) \<Longrightarrow>
   subprocess_run E argv w =
     (Inl FileNotFoundError, w\<lparr>events := events w @ [Run argv NotStarted]\<rparr>)"
  by (simp add: subprocess_run_def)

lemma build_package_cases:
  "build_package E w =
     (case tool E (build_argv E) (files w, cwd w) of
        (NotStarted, disk) \<Rightarrow>
          (Inl FileNotFoundError, w\<lparr>events := events w @ [Run (build_argv E) NotStarted]\<rparr>)
      | (Exited status, fs, d) \<Rightarrow>
          if status = 0
          then (Inr True, w\<lparr>files := fs, cwd := d,
                             events := events w @ [Run (build_argv E) (Exited status)]\<rparr>)
          else (Inr False, w\<lparr>files := fs, cwd := d,
                              events := events w @ [Run (build_argv E) (Exited status),
                                                    Print BuildFailedMsg]\<rparr>))"
  by (simp add: build_package_def except_called_process_error_def bind_io_def subprocess_run_def
        return_io_def print_io_def split: prod.splits proc_outcome.splits)

lemma upload_to_pypi_cases:
  "upload_to_pypi E test w =
     (case tool E (upload_argv test) (files w, cwd w) of
        (NotStarted, disk) \<Rightarrow>
          (Inl FileNotFoundError, w\<lparr>events := events w @ [Run (upload_argv test) NotStarted]\<rparr>)
      | (Exited status, fs, d) \<Rightarrow>
          if status = 0
          then (Inr True, w\<lparr>files := fs, cwd := d,
                             events := events w @ [Run (upload_argv test) (Exited status)]\<rparr>)
          else (Inr False, w\<lparr>files := fs, cwd := d,
                              events := events w @ [Run (upload_argv test) (Exited status),
                                                    Print UploadFailedMsg]\<rparr>))"
  by (simp add: upload_to_pypi_def except_called_process_error_def bind_io_def subprocess_run_def
        return_io_def print_io_def split: prod.splits proc_outcome.splits)

text \<open>
  Claim C5 at the failing input: \<open>twine\<close> is not installed, so the program cannot
  be started. \<open>upload_to_pypi\<close> ends with \<open>FileNotFoundError\<close>; the message of
  line 118 is not printed and no boolean is returned. A run of \<open>main\<close> that gets
  as far as the upload ends with the same exception instead of an exit code.
\<close>

theorem upload_to_pypi_twine_missing:
  "upload_to_pypi (scripted_env (Exited 0) NotStarted) False example_world =
     (Inl FileNotFoundError, example_world\<lparr>events := [Run [''twine'', ''upload'', ''dist/*''] NotStarted]\<rparr>)
   \<and> fst (main (scripted_env (Exited 0) NotStarted) (answers [''y'', ''n'', ''Y'']))
       = Inl FileNotFoundError"
proof -
  have "fst (main (scripted_env (Exited 0) NotStarted) (answers [''y'', ''n'', ''Y'']))
       = Inl FileNotFoundError"
    by code_simp
  then show ?thesis
    by (simp add: upload_to_pypi_cases scripted_env_def upload_argv_def example_world_def)
qed

section \<open>Properties of the build directories\<close>

lemma map_of_absent: "n \<notin> fst ` set d \<Longrightarrow> map_of d n = None"
  by (simp add: map_of_eq_None_iff)

lemma clean_dir_absent: "\<not> isdir (cwd w) n \<Longrightarrow> clean_dir E n w = (Inr (), w)"
  by (simp add: clean_dir_def return_io_def)

text \<open>
  Claim C9. When the working directory has no entry \<open>build\<close>, no entry
  \<open>dist\<close> and no entry whose name ends in \<open>.egg-info\<close>,
  \<open>clean_build_directories\<close> returns normally, prints nothing and leaves the world as
  it was, also when the operating system would refuse every removal.
\<close>

theorem clean_build_directories_noop:
  assumes "''build'' \<notin> fst ` set (cwd w)" and "''dist'' \<notin> fst ` set (cwd w)"
    and "\<forall>n \<in> fst ` set (cwd w). \<not> ends_with ''.egg-info'' n"
  shows "clean_build_directories E w = (Inr (), w)"
proof -
  have b: "\<not> isdir (cwd w) ''build''" and d: "\<not> isdir (cwd w) ''dist''"
    using assms(1,2) by (simp_all add: isdir_def map_of_absent)
  have "glob_egg_info (cwd w) = []"
    using assms(3) by (auto simp: glob_egg_info_def filter_empty_conv)
  then show ?thesis
    by (simp add: clean_build_directories_def bind_io_def clean_dir_absent b d return_io_def)
qed

theorem clean_build_directories_noop_witness:
  "''build'' \<notin> fst ` set source_tree \<and> ''dist'' \<notin> fst ` set source_tree
   \<and> filter (ends_with ''.egg-info'') (map fst source_tree) = []
   \<and> clean_build_directories locked_env (example_world\<lparr>cwd := source_tree\<rparr>)
       = (Inr (), example_world\<lparr>cwd := source_tree\<rparr>)"
proof -
  have a: "''build'' \<notin> fst ` set (cwd (example_world\<lparr>cwd := source_tree\<rparr>))"
    and b: "''dist'' \<notin> fst ` set (cwd (example_world\<lparr>cwd := source_tree\<rparr>))"
    and c: "\<forall>n \<in> fst ` set (cwd (example_world\<lparr>cwd := source_tree\<rparr>)). \<not> ends_with ''.egg-info'' n"
    by (simp_all add: source_tree_def ends_with_def)
  have d: "filter (ends_with ''.egg-info'') (map fst source_tree) = []"
    by (simp add: source_tree_def ends_with_def)
  from clean_build_directories_noop [OF a b c, of locked_env] a b d show ?thesis by simp
qed

lemma check_egg_dirs_step:
  "check_egg_dirs nv (d # ds) w =
     (case pkg_info_version (cwd w) d of
        Inl e \<Rightarrow> (Inl e, w)
      | Inr None \<Rightarrow> check_egg_dirs nv ds w
      | Inr (Some found) \<Rightarrow>
          if found \<noteq> nv
          then (Inr False, w\<lparr>events := events w @ [Print (EggInfoMismatch (d @ ''/PKG-INFO'') found nv)]\<rparr>)
          else check_egg_dirs nv ds w)"
  by (simp add: check_egg_dirs.simps bind_io_def lift_io_def print_io_def return_io_def
        split: sum.splits option.splits)

lemma check_egg_dirs_Nil: "check_egg_dirs nv [] w = (Inr True, w)"
  by (simp add: check_egg_dirs.simps return_io_def)

text \<open>How a scan ends: with \<open>False\<close> and one warning about an entry whose version
  differs, or with the world untouched.\<close>

lemma check_egg_dirs_outcome:
  "check_egg_dirs nv ds w = (r, w') \<Longrightarrow>
     (r = Inr False
      \<and> (\<exists>d found. d \<in> set ds \<and> pkg_info_version (cwd w) d = Inr (Some found) \<and> found \<noteq> nv
            \<and> w' = w\<lparr>events := events w @ [Print (EggInfoMismatch (d @ ''/PKG-INFO'') found nv)]\<rparr>))
     \<or> (r \<noteq> Inr False \<and> w' = w)"
proof (induction ds)
  case Nil
  then show ?case by (auto simp: check_egg_dirs_Nil)
next
  case (Cons d ds)
  show ?case
  proof (cases "pkg_info_version (cwd w) d")
    case (Inl e)
    with Cons.prems show ?thesis by (auto simp: check_egg_dirs_step)
  next
    case (Inr v)
    show ?thesis
    proof (cases "\<exists>found. v = Some found \<and> found \<noteq> nv")
      case True
      with Inr Cons.prems show ?thesis by (auto simp: check_egg_dirs_step)
    next
      case False
      with Inr Cons.prems have "check_egg_dirs nv ds w = (r, w')"
        by (cases v) (auto simp: check_egg_dirs_step split: if_splits)
      from Cons.IH [OF this] show ?thesis by auto
    qed
  qed
qed

lemma check_egg_dirs_consistent_prefix:
  assumes "\<forall>p \<in> set pre. pkg_info_version (cwd w) p = Inr None
                        \<or> pkg_info_version (cwd w) p = Inr (Some nv)"
  shows "check_egg_dirs nv (pre @ ds) w = check_egg_dirs nv ds w"
  using assms by (induction pre) (auto simp: check_egg_dirs_step)

lemma check_egg_dirs_rest_unread:
  assumes "pkg_info_version (cwd w) d = Inr (Some found)" and "found \<noteq> nv"
  shows "check_egg_dirs nv (pre @ d # rest) w = check_egg_dirs nv (pre @ d # rest') w"
  using assms
  by (induction pre) (auto simp: check_egg_dirs_step split: sum.splits option.splits)

text \<open>
  Claim C10. With no entry whose name ends in \<open>.egg-info\<close>,
  \<open>check_egg_info_version\<close> returns \<open>True\<close> for every expected version and
  changes nothing. When the entries before some entry are consistent and that entry's
  \<open>PKG-INFO\<close> declares another version, the result is \<open>False\<close> with one warning,
  whatever the later entries are; and the scan of a list that holds a mismatching entry
  does not depend on the entries after it.
\<close>

theorem check_egg_info_version_cases:
  "((\<forall>n \<in> fst ` set (cwd w). \<not> ends_with ''.egg-info'' n) \<longrightarrow>
      check_egg_info_version nv w = (Inr True, w))
   \<and> (egg_dirs_of (cwd w) = pre @ d # rest
        \<and> (\<forall>p \<in> set pre. pkg_info_version (cwd w) p = Inr None
                          \<or> pkg_info_version (cwd w) p = Inr (Some nv))
        \<and> pkg_info_version (cwd w) d = Inr (Some found) \<and> found \<noteq> nv \<longrightarrow>
      check_egg_info_version nv w =
        (Inr False, w\<lparr>events := events w @ [Print (EggInfoMismatch (d @ ''/PKG-INFO'') found nv)]\<rparr>))
   \<and> (pkg_info_version (cwd w) d = Inr (Some found) \<and> found \<noteq> nv \<longrightarrow>
      check_egg_dirs nv (pre @ d # rest) w = check_egg_dirs nv (pre @ d # rest') w)"
proof (intro conjI impI)
  assume "\<forall>n \<in> fst ` set (cwd w). \<not> ends_with ''.egg-info'' n"
  then have "egg_dirs_of (cwd w) = []"
    by (auto simp: egg_dirs_of_def filter_empty_conv)
  then show "check_egg_info_version nv w = (Inr True, w)"
    by (simp add: check_egg_info_version_def check_egg_dirs_Nil)
next
  assume a: "egg_dirs_of (cwd w) = pre @ d # rest
        \<and> (\<forall>p \<in> set pre. pkg_info_version (cwd w) p = Inr None
                          \<or> pkg_info_version (cwd w) p = Inr (Some nv))
        \<and> pkg_info_version (cwd w) d = Inr (Some found) \<and> found \<noteq> nv"
  then have "check_egg_dirs nv (pre @ d # rest) w = check_egg_dirs nv (d # rest) w"
    by (intro check_egg_dirs_consistent_prefix) simp
  with a show "check_egg_info_version nv w =
        (Inr False, w\<lparr>events := events w @ [Print (EggInfoMismatch (d @ ''/PKG-INFO'') found nv)]\<rparr>)"
    by (simp add: check_egg_info_version_def check_egg_dirs_step)
next
  assume "pkg_info_version (cwd w) d = Inr (Some found) \<and> found \<noteq> nv"
  then show "check_egg_dirs nv (pre @ d # rest) w = check_egg_dirs nv (pre @ d # rest') w"
    using check_egg_dirs_rest_unread by blast
qed

lemma egg_dirs_built_tree: "egg_dirs_of built_tree = [''old.egg-info''] @ ''demo.egg-info'' # [''broken.egg-info'']"
  by (simp add: egg_dirs_of_def built_tree_def ends_with_def)

lemma pkg_info_old: "pkg_info_version built_tree ''old.egg-info'' = Inr None"
  by (simp add: pkg_info_version_def built_tree_def)

lemma pkg_info_demo: "pkg_info_version built_tree ''demo.egg-info'' = Inr (Some ''1.2.3'')"
  by code_simp

lemma pkg_info_broken: "pkg_info_version built_tree ''broken.egg-info'' = Inl IsADirectoryError"
  by (simp add: pkg_info_version_def built_tree_def)

theorem check_egg_info_version_cases_witness:
  "filter (ends_with ''.egg-info'') (map fst source_tree) = []
   \<and> check_egg_info_version ''1.2.4'' (example_world\<lparr>cwd := source_tree\<rparr>)
       = (Inr True, example_world\<lparr>cwd := source_tree\<rparr>)
   \<and> egg_dirs_of built_tree = [''old.egg-info''] @ ''demo.egg-info'' # [''broken.egg-info'']
   \<and> pkg_info_version built_tree ''old.egg-info'' = Inr None
   \<and> pkg_info_version built_tree ''demo.egg-info'' = Inr (Some ''1.2.3'') \<and> ''1.2.3'' \<noteq> ''1.2.4''
   \<and> pkg_info_version built_tree ''broken.egg-info'' = Inl IsADirectoryError
   \<and> check_egg_info_version ''1.2.4'' (example_world\<lparr>cwd := built_tree\<rparr>)
       = (Inr False,
          example_world\<lparr>cwd := built_tree,
            events := [Print (EggInfoMismatch ''demo.egg-info/PKG-INFO'' ''1.2.3'' ''1.2.4'')]\<rparr>)
   \<and> check_egg_dirs ''1.2.4'' ([''old.egg-info''] @ ''demo.egg-info'' # [''broken.egg-info''])
         (example_world\<lparr>cwd := built_tree\<rparr>)
       = check_egg_dirs ''1.2.4'' ([''old.egg-info''] @ ''demo.egg-info'' # [])
         (example_world\<lparr>cwd := built_tree\<rparr>)"
proof -
  let ?ws = "example_world\<lparr>cwd := source_tree\<rparr>"
  let ?wb = "example_world\<lparr>cwd := built_tree\<rparr>"
  have s: "\<forall>n \<in> fst ` set (cwd ?ws). \<not> ends_with ''.egg-info'' n"
    by (simp add: source_tree_def ends_with_def)
  have e: "events example_world = []" by (simp add: example_world_def)
  note t1 = check_egg_info_version_cases [of ?ws "''1.2.4''"]
  note t2 = check_egg_info_version_cases
    [of ?wb "''1.2.4''" "[''old.egg-info'']" "''demo.egg-info''" "[''broken.egg-info'']" "''1.2.3''" "[]"]
  from t1 s have 1: "check_egg_info_version ''1.2.4'' ?ws = (Inr True, ?ws)" by blast
  from t2 have 2: "check_egg_info_version ''1.2.4'' ?wb =
      (Inr False, ?wb\<lparr>events := events ?wb @ [Print (EggInfoMismatch (''demo.egg-info'' @ ''/PKG-INFO'') ''1.2.3'' ''1.2.4'')]\<rparr>)"
    and 3: "check_egg_dirs ''1.2.4'' ([''old.egg-info''] @ ''demo.egg-info'' # [''broken.egg-info'']) ?wb
       = check_egg_dirs ''1.2.4'' ([''old.egg-info''] @ ''demo.egg-info'' # []) ?wb"
    by (simp_all add: egg_dirs_built_tree pkg_info_old pkg_info_demo)
  have d: "filter (ends_with ''.egg-info'') (map fst source_tree) = []"
    by (simp add: source_tree_def ends_with_def)
  from 1 2 3 d e show ?thesis
    by (simp add: egg_dirs_built_tree pkg_info_old pkg_info_demo pkg_info_broken)
qed


section \<open>Properties of the release workflow\<close>

subsection \<open>What each step can log\<close>


lemma onlyI: "(\<And>w. \<exists>new. events (snd (m w)) = events w @ new \<and> list_all P new) \<Longrightarrow> only P m"
  by (simp add: only_def)

lemma onlyD: "only P m \<Longrightarrow> \<exists>new. events (snd (m w)) = events w @ new \<and> list_all P new"
  by (simp add: only_def)

lemma only_return: "only P (return_io x)"
  by (simp add: only_def return_io_def)

lemma only_lift: "only P (lift_io r)"
  by (simp add: only_def lift_io_def)

lemma only_print: "P (Print m) \<Longrightarrow> only P (print_io m)"
  by (simp add: only_def print_io_def)

lemma only_input: "(\<And>a. P (Input p a)) \<Longrightarrow> only P (input_io p)"
  by (simp add: only_def input_io_def split: list.splits)

lemma only_read_file: "only P (read_file p)"
  by (simp add: only_def read_file_def split: option.splits)

lemma only_write_file: "only P (write_file E p c)"
  by (simp add: only_def write_file_def)

lemma only_bind:
  assumes "only P m" and "\<And>x. only P (f x)"
  shows "only P (bind_io m f)"
proof (rule onlyI)
  fix w
  obtain r w1 where m: "m w = (r, w1)" by (cases "m w")
  from onlyD [OF assms(1), of w] m obtain n1 where n1: "events w1 = events w @ n1" "list_all P n1"
    by auto
  show "\<exists>new. events (snd (bind_io m f w)) = events w @ new \<and> list_all P new"
  proof (cases r)
    case (Inl e)
    with m n1 show ?thesis by (auto simp: bind_io_def)
  next
    case (Inr x)
    from onlyD [OF assms(2), of x w1] obtain n2 where
      "events (snd (f x w1)) = events w1 @ n2" "list_all P n2" by auto
    with m n1 Inr show ?thesis by (auto simp: bind_io_def)
  qed
qed

lemma only_world: "(\<And>v. only P (f v)) \<Longrightarrow> only P (\<lambda>w. f (g w) w)"
  by (simp add: only_def)

lemma only_if: "only P a \<Longrightarrow> only P b \<Longrightarrow> only P (if c then a else b)"
  by simp

lemma only_except:
  assumes "only P m" and "only P h"
  shows "only P (except_called_process_error m h)"
proof (rule onlyI)
  fix w
  obtain r w1 where m: "m w = (r, w1)" by (cases "m w")
  from onlyD [OF assms(1), of w] m obtain n1 where n1: "events w1 = events w @ n1" "list_all P n1"
    by auto
  from onlyD [OF assms(2), of w1] obtain n2 where
    n2: "events (snd (h w1)) = events w1 @ n2" "list_all P n2" by auto
  show "\<exists>new. events (snd (except_called_process_error m h w)) = events w @ new \<and> list_all P new"
    using m n1 n2 by (cases r) (auto simp: except_called_process_error_def)
qed

lemma only_subprocess_run: "(\<And>oc. P (Run argv oc)) \<Longrightarrow> only P (subprocess_run E argv)"
  by (auto simp: only_def subprocess_run_def split: prod.splits proc_outcome.splits)

lemma only_mono: "only P m \<Longrightarrow> (\<And>e. P e \<Longrightarrow> Q e) \<Longrightarrow> only Q m"
  unfolding only_def list_all_iff by metis

lemma only_print_all: "(\<And>m. m \<in> set ms \<Longrightarrow> P (Print m)) \<Longrightarrow> only P (print_all ms)"
  by (induction ms) (auto intro!: only_return only_bind only_print)

lemma only_get_current_version:
  "(\<And>x y. P (Print (VersionsDiffer x y))) \<Longrightarrow> only P (get_current_version a b)"
  unfolding get_current_version_def Let_def
  by (auto intro!: only_bind only_read_file only_return only_print split: option.splits)

lemma only_update_file: "only P (update_file E key file nv)"
  unfolding update_file_def
  by (intro only_bind only_read_file only_lift only_if only_write_file only_return)

lemma only_update_version_in_files: "only P (update_version_in_files E a b nv)"
  unfolding update_version_in_files_def
  by (intro only_bind only_update_file only_return)

lemma only_remove_entry: "only P (remove_entry E n)"
  by (simp add: only_def remove_entry_def)

lemma only_clean_step:
  assumes "\<And>n. P (Print (CleaningDir n))" and "\<And>n. P (Print (DeletingFile n))"
  shows "only P (\<lambda>w. if isdir (cwd w) item
       then bind_io (print_io (CleaningDir item)) (\<lambda>_. remove_entry E item) w
       else if exists_entry (cwd w) item
       then bind_io (print_io (DeletingFile item)) (\<lambda>_. remove_entry E item) w
       else return_io () w)"
proof (rule onlyI)
  fix w
  have a: "only P (bind_io (print_io (CleaningDir item)) (\<lambda>_. remove_entry E item))"
    and b: "only P (bind_io (print_io (DeletingFile item)) (\<lambda>_. remove_entry E item))"
    and c: "only P (return_io ())"
    using assms by (auto intro!: only_bind only_print only_remove_entry only_return)
  show "\<exists>new. events (snd ((\<lambda>w. if isdir (cwd w) item
       then bind_io (print_io (CleaningDir item)) (\<lambda>_. remove_entry E item) w
       else if exists_entry (cwd w) item
       then bind_io (print_io (DeletingFile item)) (\<lambda>_. remove_entry E item) w
       else return_io () w) w)) = events w @ new \<and> list_all P new"
    using onlyD [OF a, of w] onlyD [OF b, of w] onlyD [OF c, of w] by simp
qed

lemma only_clean_items:
  "(\<And>n. P (Print (CleaningDir n))) \<Longrightarrow> (\<And>n. P (Print (DeletingFile n)))
   \<Longrightarrow> only P (clean_items E items)"
proof (induction items)
  case Nil
  show ?case by (simp add: only_return)
next
  case (Cons item items)
  show ?case
    unfolding clean_items.simps
    by (intro only_bind only_clean_step Cons)
qed

lemma only_clean_dir: "(\<And>n. P (Print (CleaningDir n))) \<Longrightarrow> only P (clean_dir E n)"
proof (rule onlyI)
  fix w
  assume p: "\<And>n. P (Print (CleaningDir n))"
  have a: "only P (bind_io (print_io (CleaningDir n)) (\<lambda>_. remove_entry E n))"
    and c: "only P (return_io ())"
    using p by (auto intro!: only_bind only_print only_remove_entry only_return)
  show "\<exists>new. events (snd (clean_dir E n w)) = events w @ new \<and> list_all P new"
    using onlyD [OF a, of w] onlyD [OF c, of w] by (simp add: clean_dir_def)
qed

lemma only_clean_build_directories:
  "(\<And>n. P (Print (CleaningDir n))) \<Longrightarrow> (\<And>n. P (Print (DeletingFile n)))
   \<Longrightarrow> only P (clean_build_directories E)"
proof -
  assume p: "\<And>n. P (Print (CleaningDir n))" and q: "\<And>n. P (Print (DeletingFile n))"
  have "only P (\<lambda>w. clean_items E (glob_egg_info (cwd w)) w)"
    by (rule only_world, rule only_clean_items, rule p, rule q)
  then show ?thesis
    unfolding clean_build_directories_def
    by (intro only_bind only_clean_dir p)
qed

lemma only_check_egg_info_version:
  "(\<And>p found. P (Print (EggInfoMismatch p found nv))) \<Longrightarrow> only P (check_egg_info_version nv)"
proof (rule onlyI)
  fix w
  assume p: "\<And>p found. P (Print (EggInfoMismatch p found nv))"
  obtain r w' where c: "check_egg_dirs nv (egg_dirs_of (cwd w)) w = (r, w')"
    by (cases "check_egg_dirs nv (egg_dirs_of (cwd w)) w")
  from check_egg_dirs_outcome [OF c] p
  show "\<exists>new. events (snd (check_egg_info_version nv w)) = events w @ new \<and> list_all P new"
    by (auto simp: check_egg_info_version_def c)
qed

lemma only_build_package:
  "P (Print BuildFailedMsg) \<Longrightarrow> (\<And>oc. P (Run (build_argv E) oc)) \<Longrightarrow> only P (build_package E)"
  unfolding build_package_def
  by (intro only_except only_bind only_subprocess_run only_return only_print)

lemma only_upload_to_pypi:
  "P (Print UploadFailedMsg) \<Longrightarrow> (\<And>oc. P (Run (upload_argv t) oc)) \<Longrightarrow> only P (upload_to_pypi E t)"
  unfolding upload_to_pypi_def
  by (intro only_except only_bind only_subprocess_run only_return only_print)

lemma only_main_upload:
  "P (Print UploadHeader) \<Longrightarrow> P (Print UploadFailedMsg) \<Longrightarrow> P (Print (Success nv t))
   \<Longrightarrow> (\<And>oc. P (Run (upload_argv t) oc)) \<Longrightarrow> only P (main_upload E nv t)"
  unfolding main_upload_def
  by (intro only_bind only_print only_upload_to_pypi only_if only_return)

subsection \<open>The steps before the build\<close>


lemma only_upload_events: "only (upload_event nv t) (main_upload E nv t)"
  by (rule only_main_upload) (simp_all add: upload_event_def)

lemma only_check_events: "only (check_event nv t) (main_check E nv t)"
  unfolding main_check_def
  by (intro only_bind only_check_egg_info_version only_if only_input only_print only_return
        only_mono [OF only_upload_events])
     (simp_all add: check_event_def)

lemma reaches_only: "only plain_event m \<Longrightarrow> reaches_build E m"
  by (simp add: reaches_build_def only_def)

lemma reaches_main_build: "reaches_build E (main_build E nv t)"
  unfolding reaches_build_def
proof (intro allI disjI2)
  fix w
  have "events w = events w @ [] \<and> list_all plain_event [] \<and> main_build E nv t w = main_build E nv t w"
    by simp
  then show "\<exists>nv' t' w2 new. events w2 = events w @ new \<and> list_all plain_event new
              \<and> main_build E nv t w = main_build E nv' t' w2"
    by blast
qed

lemma reaches_bind:
  assumes "only plain_event m" and "\<And>x. reaches_build E (f x)"
  shows "reaches_build E (bind_io m f)"
  unfolding reaches_build_def
proof
  fix w
  obtain r w1 where m: "m w = (r, w1)" by (cases "m w")
  from onlyD [OF assms(1), of w] m obtain n1 where
    n1: "events w1 = events w @ n1" "list_all plain_event n1" by auto
  show "(\<exists>new. events (snd (bind_io m f w)) = events w @ new \<and> list_all plain_event new)
        \<or> (\<exists>nv t w2 new. events w2 = events w @ new \<and> list_all plain_event new
              \<and> bind_io m f w = main_build E nv t w2)"
  proof (cases r)
    case (Inl e)
    with m n1 show ?thesis by (auto simp: bind_io_def)
  next
    case (Inr x)
    then have b: "bind_io m f w = f x w1" using m by (simp add: bind_io_def)
    from assms(2) [of x] have
      "(\<exists>new. events (snd (f x w1)) = events w1 @ new \<and> list_all plain_event new)
        \<or> (\<exists>nv t w2 new. events w2 = events w1 @ new \<and> list_all plain_event new
              \<and> f x w1 = main_build E nv t w2)"
      by (simp add: reaches_build_def)
    then show ?thesis
    proof
      assume "\<exists>new. events (snd (f x w1)) = events w1 @ new \<and> list_all plain_event new"
      then obtain n2 where "events (snd (f x w1)) = events w1 @ n2" "list_all plain_event n2" by auto
      with n1 b have "events (snd (bind_io m f w)) = events w @ (n1 @ n2) \<and> list_all plain_event (n1 @ n2)"
        by simp
      then show ?thesis by blast
    next
      assume "\<exists>nv t w2 new. events w2 = events w1 @ new \<and> list_all plain_event new
              \<and> f x w1 = main_build E nv t w2"
      then obtain nv t w2 n2 where "events w2 = events w1 @ n2" "list_all plain_event n2"
        "f x w1 = main_build E nv t w2" by auto
      with n1 b have "events w2 = events w @ (n1 @ n2) \<and> list_all plain_event (n1 @ n2)
          \<and> bind_io m f w = main_build E nv t w2" by simp
      then show ?thesis by blast
    qed
  qed
qed

lemma plain_prints:
  "plain_event (Print MissingFiles)" "plain_event (Print (VersionsDiffer x y))"
  "plain_event (Print (CurrentVersion cv))" "plain_event (Print (NewVersion nv))"
  "plain_event (Print Cancelled)" "plain_event (Print CleaningHeader)"
  "plain_event (Print (CleaningDir n))" "plain_event (Print (DeletingFile n))"
  "plain_event (Print NothingUpdated)" "plain_event (Print (UpdatedHeader nv))"
  "plain_event (Print (UpdatedFile f))"
  "plain_event (Input (ConfirmPrompt cv nv) a)" "plain_event (Input TestPrompt a)"
  by (simp_all add: plain_event_def)

lemma reaches_return: "reaches_build E (return_io c)"
  by (rule reaches_only) (rule only_return)

lemma reaches_if:
  "reaches_build E a \<Longrightarrow> reaches_build E b \<Longrightarrow> reaches_build E (if c then a else b)"
  by simp

lemma main_reaches_build: "reaches_build E (main E)"
  unfolding main_def Let_def
  apply (rule reaches_bind)
   apply (rule only_world, rule only_return)
  apply (intro reaches_if reaches_bind reaches_return reaches_main_build only_print only_input
      only_lift only_get_current_version only_clean_build_directories
      only_update_version_in_files only_print_all)
                 apply (auto simp: plain_prints)
  done

subsection \<open>The build, the check and the upload\<close>


lemma plain_excludes:
  assumes "list_all plain_event evs"
  shows "Run argv oc \<notin> set evs" and "Input RetryPrompt a \<notin> set evs"
    and "Print (EggInfoMismatch p found v) \<notin> set evs"
  using assms by (auto simp: list_all_iff plain_event_def)

lemma build_not_upload: "build_argv E \<noteq> upload_argv t"
  by (simp add: build_argv_def upload_argv_def)

lemma upload_excludes:
  assumes "list_all (upload_event nv t) evs"
  shows "Run (build_argv E) oc \<notin> set evs" and "Input pr a \<notin> set evs"
    and "Print (EggInfoMismatch p found v) \<notin> set evs"
  using assms build_not_upload [of E t] by (auto simp: list_all_iff upload_event_def)

lemma check_excludes:
  assumes "list_all (check_event nv t) evs"
  shows "Run (build_argv E) oc \<notin> set evs"
  using assms build_not_upload [of E t] by (auto simp: list_all_iff check_event_def upload_event_def)

lemma main_build_cases:
  "main_build E nv t w =
     (case tool E (build_argv E) (files w, cwd w) of
        (NotStarted, disk) \<Rightarrow>
          (Inl FileNotFoundError,
           w\<lparr>events := events w @ [Print BuildHeader, Run (build_argv E) NotStarted]\<rparr>)
      | (Exited status, fs, d) \<Rightarrow>
          if status = 0
          then main_check E nv t
                 (w\<lparr>files := fs, cwd := d,
                    events := events w @ [Print BuildHeader, Run (build_argv E) (Exited status)]\<rparr>)
          else (Inr 1,
                w\<lparr>files := fs, cwd := d,
                   events := events w @ [Print BuildHeader, Run (build_argv E) (Exited status),
                                         Print BuildFailedMsg]\<rparr>))"
  by (simp add: main_build_def bind_io_def print_io_def build_package_cases return_io_def
        split: prod.splits proc_outcome.splits)

lemma check_egg_info_version_outcome:
  assumes "check_egg_info_version nv w = (r, w')"
  shows "(r = Inr False
          \<and> (\<exists>p found. found \<noteq> nv
                \<and> w' = w\<lparr>events := events w @ [Print (EggInfoMismatch p found nv)]\<rparr>))
         \<or> (r \<noteq> Inr False \<and> w' = w)"
  using check_egg_dirs_outcome [of nv "egg_dirs_of (cwd w)" w r w'] assms
  by (auto simp: check_egg_info_version_def)

lemma main_check_cases:
  assumes "check_egg_info_version nv w = (rc, w1)"
  shows "main_check E nv t w =
     (case rc of
        Inl e \<Rightarrow> (Inl e, w1)
      | Inr consistent \<Rightarrow>
          if consistent then main_upload E nv t w1
          else (case stdin w1 of
                  [] \<Rightarrow> (Inl EOFError, w1\<lparr>events := events w1 @ [Input RetryPrompt None]\<rparr>)
                | l # ls \<Rightarrow>
                    if lower l \<noteq> ''y''
                    then (Inr 1, w1\<lparr>stdin := ls,
                                   events := events w1 @ [Input RetryPrompt (Some l), Print Cancelled]\<rparr>)
                    else main_upload E nv t
                           (w1\<lparr>stdin := ls, events := events w1 @ [Input RetryPrompt (Some l)]\<rparr>)))"
  using assms
  by (simp add: main_check_def bind_io_def input_io_def print_io_def return_io_def
        split: sum.splits list.splits)

text \<open>A run of the build stage in which the build tool ends with a non-zero status.\<close>

lemma main_build_failed:
  assumes plain: "list_all plain_event (events w)"
    and run: "Run (build_argv E) (Exited status) \<in> set (events (snd (main_build E nv t w)))"
    and status: "status \<noteq> 0"
  shows "fst (main_build E nv t w) = Inr 1
         \<and> events (snd (main_build E nv t w))
             = events w @ [Print BuildHeader, Run (build_argv E) (Exited status), Print BuildFailedMsg]"
proof -
  obtain oc fs d where tl: "tool E (build_argv E) (files w, cwd w) = (oc, fs, d)"
    by (cases "tool E (build_argv E) (files w, cwd w)") auto
  note no = plain_excludes(1) [OF plain, of "build_argv E" "Exited status"]
  show ?thesis
  proof (cases oc)
    case NotStarted
    with tl run no show ?thesis by (simp add: main_build_cases)
  next
    case (Exited s)
    show ?thesis
    proof (cases "s = 0")
      case False
      with tl Exited run no show ?thesis by (auto simp: main_build_cases)
    next
      case True
      let ?w2 = "w\<lparr>files := fs, cwd := d,
                    events := events w @ [Print BuildHeader, Run (build_argv E) (Exited s)]\<rparr>"
      have mb: "main_build E nv t w = main_check E nv t ?w2"
        using tl Exited True by (simp add: main_build_cases)
      from onlyD [OF only_check_events, of E nv t ?w2] obtain new where
        new: "events (snd (main_check E nv t ?w2)) = events ?w2 @ new" "list_all (check_event nv t) new"
        by auto
      from run mb new(1) True status no check_excludes [OF new(2), of E "Exited status"]
      show ?thesis by auto
    qed
  qed
qed

text \<open>A run of the build stage in which the extra confirmation is asked and declined.\<close>

lemma main_build_declined:
  assumes plain: "list_all plain_event (events w)"
    and asked: "Input RetryPrompt (Some answer) \<in> set (events (snd (main_build E nv t w)))"
    and no: "lower answer \<noteq> ''y''"
  shows "fst (main_build E nv t w) = Inr 1
         \<and> (\<exists>p found. found \<noteq> nv
               \<and> Print (EggInfoMismatch p found nv) \<in> set (events (snd (main_build E nv t w))))
         \<and> Print Cancelled \<in> set (events (snd (main_build E nv t w)))
         \<and> (\<forall>test oc. Run (upload_argv test) oc \<notin> set (events (snd (main_build E nv t w))))"
proof -
  obtain oc fs d where tl: "tool E (build_argv E) (files w, cwd w) = (oc, fs, d)"
    by (cases "tool E (build_argv E) (files w, cwd w)") auto
  note nr = plain_excludes(2) [OF plain, of "Some answer"]
  note nrun = plain_excludes(1) [OF plain]
  show ?thesis
  proof (cases oc)
    case NotStarted
    with tl asked nr show ?thesis by (simp add: main_build_cases)
  next
    case (Exited s)
    show ?thesis
    proof (cases "s = 0")
      case False
      with tl Exited asked nr show ?thesis by (auto simp: main_build_cases)
    next
      case True
      let ?w2 = "w\<lparr>files := fs, cwd := d,
                    events := events w @ [Print BuildHeader, Run (build_argv E) (Exited s)]\<rparr>"
      have mb: "main_build E nv t w = main_check E nv t ?w2"
        using tl Exited True by (simp add: main_build_cases)
      have nr2: "Input RetryPrompt (Some answer) \<notin> set (events ?w2)" using nr by simp
      obtain rc w3 where ck: "check_egg_info_version nv ?w2 = (rc, w3)"
        by (cases "check_egg_info_version nv ?w2")
      note mc = main_check_cases [OF ck, of E t]
      from check_egg_info_version_outcome [OF ck]
      show ?thesis
      proof
        assume "rc \<noteq> Inr False \<and> w3 = ?w2"
        then have rc: "rc \<noteq> Inr False" and w3: "w3 = ?w2" by simp_all
        show ?thesis
        proof (cases rc)
          case (Inl e)
          with mc w3 mb asked nr2 show ?thesis by simp
        next
          case (Inr c)
          with rc have "c" by simp
          with mc Inr w3 have m: "main_check E nv t ?w2 = main_upload E nv t ?w2" by simp
          from onlyD [OF only_upload_events, of E nv t ?w2] obtain new where
            "events (snd (main_upload E nv t ?w2)) = events ?w2 @ new" "list_all (upload_event nv t) new"
            by auto
          with asked mb m nr upload_excludes(2) [of nv t new RetryPrompt "Some answer"]
          show ?thesis by auto
        qed
      next
        assume "rc = Inr False
          \<and> (\<exists>p found. found \<noteq> nv
                \<and> w3 = ?w2\<lparr>events := events ?w2 @ [Print (EggInfoMismatch p found nv)]\<rparr>)"
        then obtain p found where rc: "rc = Inr False" and found: "found \<noteq> nv"
          and w3: "w3 = ?w2\<lparr>events := events ?w2 @ [Print (EggInfoMismatch p found nv)]\<rparr>"
          by auto
        have ev3: "events w3 = events w @ [Print BuildHeader, Run (build_argv E) (Exited s),
                                          Print (EggInfoMismatch p found nv)]"
          and st3: "stdin w3 = stdin w"
          using w3 by simp_all
        show ?thesis
        proof (cases "stdin w")
          case Nil
          with mc rc st3 have "events (snd (main_check E nv t ?w2)) = events w3 @ [Input RetryPrompt None]"
            by simp
          with asked mb ev3 nr show ?thesis by auto
        next
          case (Cons l ls)
          show ?thesis
          proof (cases "lower l \<noteq> ''y''")
            case True
            with mc rc st3 Cons have
              r: "fst (main_check E nv t ?w2) = Inr 1"
              and e: "events (snd (main_check E nv t ?w2))
                    = events w3 @ [Input RetryPrompt (Some l), Print Cancelled]"
              by simp_all
            have "Run (upload_argv test) oc' \<notin> set (events (snd (main_build E nv t w)))" for test oc'
              using mb e ev3 nrun [of "upload_argv test" oc'] build_not_upload [of E test] by auto
            moreover have "Print (EggInfoMismatch p found nv) \<in> set (events (snd (main_build E nv t w)))"
              using mb e ev3 by simp
            moreover have "Print Cancelled \<in> set (events (snd (main_build E nv t w)))"
              using mb e by simp
            ultimately show ?thesis using mb r found by auto
          next
            case False
            let ?w4 = "w3\<lparr>stdin := ls, events := events w3 @ [Input RetryPrompt (Some l)]\<rparr>"
            from False mc rc st3 Cons have m: "main_check E nv t ?w2 = main_upload E nv t ?w4"
              by simp
            from onlyD [OF only_upload_events, of E nv t ?w4] obtain new where
              "events (snd (main_upload E nv t ?w4)) = events ?w4 @ new" "list_all (upload_event nv t) new"
              by auto
            with asked mb m ev3 nr upload_excludes(2) [of nv t new RetryPrompt "Some answer"]
            have "answer = l" by auto
            with False no show ?thesis by simp
          qed
        qed
      qed
    qed
  qed
qed


text \<open>A run of the build stage in which the warning about the generated metadata is
  printed goes on to the extra confirmation.\<close>

lemma main_build_warned:
  assumes plain: "list_all plain_event (events w)"
    and warned: "Print (EggInfoMismatch p found v) \<in> set (events (snd (main_build E nv t w)))"
  shows "\<exists>a. Input RetryPrompt a \<in> set (events (snd (main_build E nv t w)))"
proof -
  obtain oc fs d where tl: "tool E (build_argv E) (files w, cwd w) = (oc, fs, d)"
    by (cases "tool E (build_argv E) (files w, cwd w)") auto
  note nw = plain_excludes(3) [OF plain, of p found v]
  show ?thesis
  proof (cases oc)
    case NotStarted
    with tl warned nw show ?thesis by (simp add: main_build_cases)
  next
    case (Exited s)
    show ?thesis
    proof (cases "s = 0")
      case False
      with tl Exited warned nw show ?thesis by (auto simp: main_build_cases)
    next
      case True
      let ?w2 = "w\<lparr>files := fs, cwd := d,
                    events := events w @ [Print BuildHeader, Run (build_argv E) (Exited s)]\<rparr>"
      have mb: "main_build E nv t w = main_check E nv t ?w2"
        using tl Exited True by (simp add: main_build_cases)
      obtain rc w3 where ck: "check_egg_info_version nv ?w2 = (rc, w3)"
        by (cases "check_egg_info_version nv ?w2")
      note mc = main_check_cases [OF ck, of E t]
      from check_egg_info_version_outcome [OF ck]
      show ?thesis
      proof
        assume "rc \<noteq> Inr False \<and> w3 = ?w2"
        then have rc: "rc \<noteq> Inr False" and w3: "w3 = ?w2" by simp_all
        show ?thesis
        proof (cases rc)
          case (Inl e)
          with mc w3 mb warned nw show ?thesis by simp
        next
          case (Inr c)
          with rc have "c" by simp
          with mc Inr w3 have m: "main_check E nv t ?w2 = main_upload E nv t ?w2" by simp
          from onlyD [OF only_upload_events, of E nv t ?w2] obtain new where
            "events (snd (main_upload E nv t ?w2)) = events ?w2 @ new" "list_all (upload_event nv t) new"
            by auto
          with warned mb m nw upload_excludes(3) [of nv t new p found v]
          show ?thesis by auto
        qed
      next
        assume "rc = Inr False
          \<and> (\<exists>p found. found \<noteq> nv
                \<and> w3 = ?w2\<lparr>events := events ?w2 @ [Print (EggInfoMismatch p found nv)]\<rparr>)"
        then obtain p' found' where rc: "rc = Inr False"
          and w3: "w3 = ?w2\<lparr>events := events ?w2 @ [Print (EggInfoMismatch p' found' nv)]\<rparr>"
          by auto
        have st3: "stdin w3 = stdin w" using w3 by simp
        show ?thesis
        proof (cases "stdin w")
          case Nil
          with mc rc st3 have "events (snd (main_check E nv t ?w2)) = events w3 @ [Input RetryPrompt None]"
            by simp
          with mb show ?thesis by auto
        next
          case (Cons l ls)
          show ?thesis
          proof (cases "lower l \<noteq> ''y''")
            case True
            with mc rc st3 Cons have
              "events (snd (main_check E nv t ?w2))
                 = events w3 @ [Input RetryPrompt (Some l), Print Cancelled]"
              by simp
            with mb show ?thesis by auto
          next
            case False
            let ?w4 = "w3\<lparr>stdin := ls, events := events w3 @ [Input RetryPrompt (Some l)]\<rparr>"
            from False mc rc st3 Cons have m: "main_check E nv t ?w2 = main_upload E nv t ?w4"
              by simp
            from onlyD [OF only_upload_events, of E nv t ?w4] obtain new where
              "events (snd (main_upload E nv t ?w4)) = events ?w4 @ new" by auto
            with mb m show ?thesis by auto
          qed
        qed
      qed
    qed
  qed
qed

lemma main_run_shape:
  assumes "events w = []"
  shows "list_all plain_event (events (snd (main E w)))
         \<or> (\<exists>nv t w2. list_all plain_event (events w2) \<and> main E w = main_build E nv t w2)"
  using main_reaches_build [of E] assms unfolding reaches_build_def
  by (metis append_Nil)

text \<open>
  Claim C6. In a run of \<open>main\<close> that starts with an empty log and in which the
  build tool ends with a non-zero status, the failure message is printed, the exit code
  is 1, and \<open>subprocess.run\<close> is never called with the upload command.
\<close>

theorem main_build_failure:
  assumes "events w = []"
    and "Run (build_argv E) (Exited status) \<in> set (events (snd (main E w)))"
    and "status \<noteq> 0"
  shows "fst (main E w) = Inr 1
         \<and> Print BuildFailedMsg \<in> set (events (snd (main E w)))
         \<and> (\<forall>test oc. Run (upload_argv test) oc \<notin> set (events (snd (main E w))))"
proof -
  from main_run_shape [OF assms(1), of E]
  show ?thesis
  proof
    assume "list_all plain_event (events (snd (main E w)))"
    from plain_excludes(1) [OF this] assms(2) show ?thesis by blast
  next
    assume "\<exists>nv t w2. list_all plain_event (events w2) \<and> main E w = main_build E nv t w2"
    then obtain nv t w2 where plain: "list_all plain_event (events w2)"
      and m: "main E w = main_build E nv t w2" by blast
    from main_build_failed [OF plain _ assms(3), of E nv t] assms(2) m
    have r: "fst (main E w) = Inr 1"
      and e: "events (snd (main E w))
             = events w2 @ [Print BuildHeader, Run (build_argv E) (Exited status), Print BuildFailedMsg]"
      by simp_all
    have "Run (upload_argv test) oc \<notin> set (events (snd (main E w)))" for test oc
      using e plain_excludes(1) [OF plain, of "upload_argv test" oc] build_not_upload [of E test]
      by auto
    with r e show ?thesis by simp
  qed
qed

text \<open>
  Claim C7. When \<open>check_egg_info_version\<close> comes to an entry whose \<open>PKG-INFO\<close>
  declares another version than the expected one, the entries before it being
  consistent, it prints the warning and returns \<open>False\<close>, with no exception. In a
  run of \<open>main\<close> that starts with an empty log: if that warning is printed, the run
  goes on to the extra confirmation; and if the extra confirmation is answered with
  anything whose lower case is not \<open>y\<close>, the warning was printed, the exit code is
  1, and \<open>subprocess.run\<close> is never called with the upload command.
\<close>

theorem main_mismatch_declined:
  "(egg_dirs_of (cwd w0) = pre @ d # rest
      \<and> (\<forall>p \<in> set pre. pkg_info_version (cwd w0) p = Inr None
                        \<or> pkg_info_version (cwd w0) p = Inr (Some nv))
      \<and> pkg_info_version (cwd w0) d = Inr (Some found) \<and> found \<noteq> nv \<longrightarrow>
    check_egg_info_version nv w0 =
      (Inr False, w0\<lparr>events := events w0 @ [Print (EggInfoMismatch (d @ ''/PKG-INFO'') found nv)]\<rparr>))
   \<and> (events w = [] \<and> Print (EggInfoMismatch path other v) \<in> set (events (snd (main E w))) \<longrightarrow>
        (\<exists>a. Input RetryPrompt a \<in> set (events (snd (main E w)))))
   \<and> (events w = [] \<and> Input RetryPrompt (Some answer) \<in> set (events (snd (main E w)))
        \<and> lower answer \<noteq> ''y'' \<longrightarrow>
        fst (main E w) = Inr 1
        \<and> (\<exists>p f v'. f \<noteq> v' \<and> Print (EggInfoMismatch p f v') \<in> set (events (snd (main E w))))
        \<and> Print Cancelled \<in> set (events (snd (main E w)))
        \<and> (\<forall>test oc. Run (upload_argv test) oc \<notin> set (events (snd (main E w)))))"
proof (intro conjI impI)
  assume a: "egg_dirs_of (cwd w0) = pre @ d # rest
      \<and> (\<forall>p \<in> set pre. pkg_info_version (cwd w0) p = Inr None
                        \<or> pkg_info_version (cwd w0) p = Inr (Some nv))
      \<and> pkg_info_version (cwd w0) d = Inr (Some found) \<and> found \<noteq> nv"
  then have "check_egg_dirs nv (pre @ d # rest) w0 = check_egg_dirs nv (d # rest) w0"
    by (intro check_egg_dirs_consistent_prefix) simp
  with a show "check_egg_info_version nv w0 =
      (Inr False, w0\<lparr>events := events w0 @ [Print (EggInfoMismatch (d @ ''/PKG-INFO'') found nv)]\<rparr>)"
    by (simp add: check_egg_info_version_def check_egg_dirs_step)
next
  assume a: "events w = [] \<and> Print (EggInfoMismatch path other v) \<in> set (events (snd (main E w)))"
  then have ev: "events w = []" by simp
  from main_run_shape [OF ev, of E]
  show "\<exists>a. Input RetryPrompt a \<in> set (events (snd (main E w)))"
  proof
    assume "list_all plain_event (events (snd (main E w)))"
    from plain_excludes(3) [OF this] a show ?thesis by blast
  next
    assume "\<exists>nv t w2. list_all plain_event (events w2) \<and> main E w = main_build E nv t w2"
    then obtain nv' t w2 where plain: "list_all plain_event (events w2)"
      and m: "main E w = main_build E nv' t w2" by blast
    from main_build_warned [OF plain, of path other v E nv' t] a m show ?thesis by simp
  qed
next
  assume a: "events w = [] \<and> Input RetryPrompt (Some answer) \<in> set (events (snd (main E w)))
        \<and> lower answer \<noteq> ''y''"
  have "fst (main E w) = Inr 1
        \<and> (\<exists>p f v'. f \<noteq> v' \<and> Print (EggInfoMismatch p f v') \<in> set (events (snd (main E w))))
        \<and> Print Cancelled \<in> set (events (snd (main E w)))
        \<and> (\<forall>test oc. Run (upload_argv test) oc \<notin> set (events (snd (main E w))))"
    using main_run_shape [OF conjunct1 [OF a], of E]
  proof
    assume "list_all plain_event (events (snd (main E w)))"
    from plain_excludes(2) [OF this] a show ?thesis by blast
  next
    assume "\<exists>nv t w2. list_all plain_event (events w2) \<and> main E w = main_build E nv t w2"
    then obtain nv' t w2 where plain: "list_all plain_event (events w2)"
      and m: "main E w = main_build E nv' t w2" by blast
    from main_build_declined [OF plain, of answer E nv' t] a m show ?thesis by auto
  qed
  then show "fst (main E w) = Inr 1"
    and "\<exists>p f v'. f \<noteq> v' \<and> Print (EggInfoMismatch p f v') \<in> set (events (snd (main E w)))"
    and "Print Cancelled \<in> set (events (snd (main E w)))"
    and "\<forall>test oc. Run (upload_argv test) oc \<notin> set (events (snd (main E w)))"
    by blast+
qed

subsection \<open>Concrete runs\<close>


lemma answers_events: "events (answers ls) = []"
  by (simp add: answers_def example_world_def)

lemma scripted_build_argv: "build_argv (scripted_env b u) = [''python3'', ''-m'', ''build'']"
  by (simp add: build_argv_def scripted_env_def)

lemma failed_build_run:
  "fst (main (scripted_env (Exited 1) (Exited 0)) (answers [''y'', ''n''])) = Inr 1"
  "events (snd (main (scripted_env (Exited 1) (Exited 0)) (answers [''y'', ''n'']))) =
     [Print (VersionsDiffer ''1.2.3'' ''1.2.4''),
      Print (CurrentVersion (Some ''1.2.3'')),
      Print (NewVersion ''1.2.4''),
      Input (ConfirmPrompt (Some ''1.2.3'') ''1.2.4'') (Some ''y''),
      Print CleaningHeader,
      Print (UpdatedHeader ''1.2.4''),
      Print (UpdatedFile [''proj'', ''setup.py'']),
      Input TestPrompt (Some ''n''),
      Print BuildHeader,
      Run [''python3'', ''-m'', ''build''] (Exited 1),
      Print BuildFailedMsg]"
  by code_simp+

lemma declined_run:
  "fst (main (scripted_env (Exited 0) (Exited 0)) (answers [''y'', ''n'', ''n''])) = Inr 1"
  "events (snd (main (scripted_env (Exited 0) (Exited 0)) (answers [''y'', ''n'', ''n'']))) =
     [Print (VersionsDiffer ''1.2.3'' ''1.2.4''),
      Print (CurrentVersion (Some ''1.2.3'')),
      Print (NewVersion ''1.2.4''),
      Input (ConfirmPrompt (Some ''1.2.3'') ''1.2.4'') (Some ''y''),
      Print CleaningHeader,
      Print (UpdatedHeader ''1.2.4''),
      Print (UpdatedFile [''proj'', ''setup.py'']),
      Input TestPrompt (Some ''n''),
      Print BuildHeader,
      Run [''python3'', ''-m'', ''build''] (Exited 0),
      Print (EggInfoMismatch ''demo.egg-info/PKG-INFO'' ''1.2.3'' ''1.2.4''),
      Input RetryPrompt (Some ''n''),
      Print Cancelled]"
  by code_simp+

theorem main_build_failure_witness:
  "events (answers [''y'', ''n'']) = []
   \<and> Run (build_argv (scripted_env (Exited 1) (Exited 0))) (Exited 1)
        \<in> set (events (snd (main (scripted_env (Exited 1) (Exited 0)) (answers [''y'', ''n'']))))
   \<and> (1 :: int) \<noteq> 0
   \<and> fst (main (scripted_env (Exited 1) (Exited 0)) (answers [''y'', ''n''])) = Inr 1
   \<and> Print BuildFailedMsg
        \<in> set (events (snd (main (scripted_env (Exited 1) (Exited 0)) (answers [''y'', ''n'']))))
   \<and> (\<forall>test oc. Run (upload_argv test) oc
        \<notin> set (events (snd (main (scripted_env (Exited 1) (Exited 0)) (answers [''y'', ''n''])))))"
proof -
  have b: "Run (build_argv (scripted_env (Exited 1) (Exited 0))) (Exited 1)
        \<in> set (events (snd (main (scripted_env (Exited 1) (Exited 0)) (answers [''y'', ''n'']))))"
    unfolding failed_build_run(2) scripted_build_argv by simp
  have c: "(1 :: int) \<noteq> 0" by simp
  have a: "events (answers [''y'', ''n'']) = []" by (rule answers_events)
  from main_build_failure [OF a b c] a b show ?thesis by simp
qed

theorem main_mismatch_declined_witness:
  "egg_dirs_of built_tree = [''old.egg-info''] @ ''demo.egg-info'' # [''broken.egg-info'']
   \<and> pkg_info_version built_tree ''old.egg-info'' = Inr None
   \<and> pkg_info_version built_tree ''demo.egg-info'' = Inr (Some ''1.2.3'') \<and> ''1.2.3'' \<noteq> ''1.2.4''
   \<and> check_egg_info_version ''1.2.4'' (example_world\<lparr>cwd := built_tree\<rparr>)
       = (Inr False,
          example_world\<lparr>cwd := built_tree,
            events := [Print (EggInfoMismatch ''demo.egg-info/PKG-INFO'' ''1.2.3'' ''1.2.4'')]\<rparr>)
   \<and> events (answers [''y'', ''n'', ''n'']) = []
   \<and> Print (EggInfoMismatch ''demo.egg-info/PKG-INFO'' ''1.2.3'' ''1.2.4'')
        \<in> set (events (snd (main (scripted_env (Exited 0) (Exited 0)) (answers [''y'', ''n'', ''n'']))))
   \<and> Input RetryPrompt (Some ''n'')
        \<in> set (events (snd (main (scripted_env (Exited 0) (Exited 0)) (answers [''y'', ''n'', ''n'']))))
   \<and> lower ''n'' \<noteq> ''y''
   \<and> fst (main (scripted_env (Exited 0) (Exited 0)) (answers [''y'', ''n'', ''n''])) = Inr 1
   \<and> Print Cancelled
        \<in> set (events (snd (main (scripted_env (Exited 0) (Exited 0)) (answers [''y'', ''n'', ''n'']))))
   \<and> (\<forall>test oc. Run (upload_argv test) oc
        \<notin> set (events (snd (main (scripted_env (Exited 0) (Exited 0)) (answers [''y'', ''n'', ''n''])))))"
proof -
  let ?wb = "example_world\<lparr>cwd := built_tree\<rparr>"
  let ?E = "scripted_env (Exited 0) (Exited 0)"
  let ?w = "answers [''y'', ''n'', ''n'']"
  note t1 = main_mismatch_declined
    [of ?wb "[''old.egg-info'']" "''demo.egg-info''" "[''broken.egg-info'']" "''1.2.4''" "''1.2.3''"]
  note t2 = main_mismatch_declined [of _ _ _ _ _ _ ?w _ _ _ ?E "''n''"]
  have e: "events example_world = []" by (simp add: example_world_def)
  have l: "lower ''n'' \<noteq> ''y''" by (simp add: lower_def lower_char_def)
  have w: "Print (EggInfoMismatch ''demo.egg-info/PKG-INFO'' ''1.2.3'' ''1.2.4'')
        \<in> set (events (snd (main ?E ?w)))"
    and i: "Input RetryPrompt (Some ''n'') \<in> set (events (snd (main ?E ?w)))"
    by (simp_all add: declined_run)
  from t1 have 1: "check_egg_info_version ''1.2.4'' ?wb =
      (Inr False, ?wb\<lparr>events := events ?wb @ [Print (EggInfoMismatch (''demo.egg-info'' @ ''/PKG-INFO'') ''1.2.3'' ''1.2.4'')]\<rparr>)"
    by (simp add: egg_dirs_built_tree pkg_info_old pkg_info_demo)
  from t2 answers_events i l have 2: "fst (main ?E ?w) = Inr 1"
    and 3: "Print Cancelled \<in> set (events (snd (main ?E ?w)))"
    and 4: "\<forall>test oc. Run (upload_argv test) oc \<notin> set (events (snd (main ?E ?w)))"
    by blast+
  from 1 2 3 4 w i l e answers_events show ?thesis
    by (simp add: egg_dirs_built_tree pkg_info_old pkg_info_demo)
qed

end
